theory Spec2Isabelle
  imports Main "HOL-Library.Char_ord" "HOL-Library.List_Lexorder"
begin

section \<open>JavaScript numbers\<close>

text \<open>
  The cycle engine computes with JavaScript numbers. The values that occur are integers
  (day counts, rounded means) and \<open>NaN\<close>, which appears when a day difference is taken
  from an invalid date or a remainder is taken by zero. Fractional settings are outside
  the model.
\<close>

datatype jsnum = Num int | NaN

text \<open>Truthiness of a number: \<open>0\<close> and \<open>NaN\<close> are falsy.\<close>

fun js_truthy :: "jsnum \<Rightarrow> bool" where
  "js_truthy (Num n) = (n \<noteq> 0)"
| "js_truthy NaN = False"

fun js_add :: "jsnum \<Rightarrow> jsnum \<Rightarrow> jsnum" where
  "js_add (Num a) (Num b) = Num (a + b)"
| "js_add _ _ = NaN"

fun js_sub :: "jsnum \<Rightarrow> jsnum \<Rightarrow> jsnum" where
  "js_sub (Num a) (Num b) = Num (a - b)"
| "js_sub _ _ = NaN"

text \<open>Comparisons with \<open>NaN\<close> are false.\<close>

fun js_le :: "jsnum \<Rightarrow> jsnum \<Rightarrow> bool" where
  "js_le (Num a) (Num b) = (a \<le> b)"
| "js_le _ _ = False"

fun js_lt :: "jsnum \<Rightarrow> jsnum \<Rightarrow> bool" where
  "js_lt (Num a) (Num b) = (a < b)"
| "js_lt _ _ = False"

text \<open>
  The remainder operator \<open>%\<close>: the result has the sign of the dividend, and the
  remainder by zero is \<open>NaN\<close>.
\<close>

fun js_rem :: "jsnum \<Rightarrow> jsnum \<Rightarrow> jsnum" where
  "js_rem (Num a) (Num b) = (if b = 0 then NaN else Num (sgn a * (\<bar>a\<bar> mod \<bar>b\<bar>)))"
| "js_rem _ _ = NaN"

text \<open>
  \<open>Math.round(x / k)\<close> for a count \<open>k\<close>: the quotient rounded to the nearest integer,
  halves upwards. Both call sites divide by the length of a list that is not empty.
\<close>

fun round_div :: "jsnum \<Rightarrow> nat \<Rightarrow> jsnum" where
  "round_div (Num x) k = (if k = 0 then NaN else Num ((2 * x + int k) div (2 * int k)))"
| "round_div NaN k = NaN"

section \<open>Calendar dates\<close>

text \<open>
  A \<open>Date\<close> of the program is always a local midnight, or the invalid date. A valid date
  is modelled by its day number, counted from 0000-01-01 in the proleptic Gregorian
  calendar; \<open>None\<close> is the invalid date. Daylight-saving shifts of a midnight are outside
  the model.
\<close>

type_synonym jsdate = "int option"

datatype error = RangeError

definition isLeapYear :: "int \<Rightarrow> bool" where
  "isLeapYear y \<longleftrightarrow> y mod 400 = 0 \<or> (y mod 4 = 0 \<and> y mod 100 \<noteq> 0)"

definition daysInMonth :: "int \<Rightarrow> int \<Rightarrow> int" where
  "daysInMonth y m =
     (if m = 2 then (if isLeapYear y then 29 else 28)
      else if m = 4 \<or> m = 6 \<or> m = 9 \<or> m = 11 then 30 else 31)"

text \<open>Days of the year \<open>y\<close> that lie before the first of month \<open>m\<close>.\<close>

definition daysBeforeMonth :: "int \<Rightarrow> int \<Rightarrow> int" where
  "daysBeforeMonth y m =
     [0, 31, 59, 90, 120, 151, 181, 212, 243, 273, 304, 334] ! nat (m - 1)
       + (if 2 < m \<and> isLeapYear y then 1 else 0)"

text \<open>Days from 0000-01-01 to the first of January of year \<open>y\<close>.\<close>

definition daysBeforeYear :: "int \<Rightarrow> int" where
  "daysBeforeYear y = 365 * y + (y + 3) div 4 - (y + 99) div 100 + (y + 399) div 400"

definition days_from_civil :: "int \<Rightarrow> int \<Rightarrow> int \<Rightarrow> int" where
  "days_from_civil y m d = daysBeforeYear y + daysBeforeMonth y m + d - 1"

text \<open>
  The year, month and day of a day number, as the language defines them for a time
  value: the year is the last one that starts on or before the day, and the month is
  the last one of that year that starts on or before it. The year is found from the
  mean year length of 146097 / 400 days, which is off by at most one year.
\<close>

definition yearFromDay :: "int \<Rightarrow> int" where
  "yearFromDay n =
     (let e = (400 * n) div 146097 in
        if n < daysBeforeYear e then e - 1
        else if daysBeforeYear (e + 1) \<le> n then e + 1
        else e)"

definition monthFromDay :: "int \<Rightarrow> int \<Rightarrow> int" where
  "monthFromDay y k =
     (if daysBeforeMonth y 12 \<le> k then 12
      else if daysBeforeMonth y 11 \<le> k then 11
      else if daysBeforeMonth y 10 \<le> k then 10
      else if daysBeforeMonth y 9 \<le> k then 9
      else if daysBeforeMonth y 8 \<le> k then 8
      else if daysBeforeMonth y 7 \<le> k then 7
      else if daysBeforeMonth y 6 \<le> k then 6
      else if daysBeforeMonth y 5 \<le> k then 5
      else if daysBeforeMonth y 4 \<le> k then 4
      else if daysBeforeMonth y 3 \<le> k then 3
      else if daysBeforeMonth y 2 \<le> k then 2
      else 1)"

definition civil_from_days :: "int \<Rightarrow> int \<times> int \<times> int" where
  "civil_from_days n =
     (let y = yearFromDay n;
          k = n - daysBeforeYear y;
          m = monthFromDay y k
      in (y, m, k - daysBeforeMonth y m + 1))"

subsection \<open>Reading and writing \<open>yyyy-MM-dd\<close>\<close>

definition isDigit :: "char \<Rightarrow> bool" where
  "isDigit c \<longleftrightarrow> 48 \<le> (of_char c :: nat) \<and> (of_char c :: nat) \<le> 57"

definition digitVal :: "char \<Rightarrow> int" where
  "digitVal c = int (of_char c) - 48"

text \<open>
  \<open>parseISO\<close> of the date library, on complete calendar dates: four digits of the year,
  two of the month and two of the day, each pair preceded by a hyphen or not
  (\<open>2024-01-01\<close>, \<open>20240101\<close>, \<open>2024-0101\<close>, \<open>202401-01\<close>), and a day that exists in that
  month. The program itself writes the first form with \<open>formatDate\<close>. The library reads
  further ISO 8601 forms (a year or a month alone, week dates, ordinal dates, times of
  day, years of six digits with a sign); the model takes every other string as
  unparseable.
\<close>

definition dropHyphen :: "string \<Rightarrow> string" where
  "dropHyphen s = (case s of [] \<Rightarrow> [] | c # cs \<Rightarrow> if c = CHR ''-'' then cs else s)"

definition dateFromDigits ::
    "char \<Rightarrow> char \<Rightarrow> char \<Rightarrow> char \<Rightarrow> char \<Rightarrow> char \<Rightarrow> char \<Rightarrow> char \<Rightarrow> jsdate" where
  "dateFromDigits y1 y2 y3 y4 m1 m2 d1 d2 =
     (if list_all isDigit [y1, y2, y3, y4, m1, m2, d1, d2]
      then
        (let y = 1000 * digitVal y1 + 100 * digitVal y2 + 10 * digitVal y3 + digitVal y4;
             m = 10 * digitVal m1 + digitVal m2;
             d = 10 * digitVal d1 + digitVal d2
         in if 1 \<le> m \<and> m \<le> 12 \<and> 1 \<le> d \<and> d \<le> daysInMonth y m
            then Some (days_from_civil y m d) else None)
      else None)"

definition parseISO :: "string \<Rightarrow> jsdate" where
  "parseISO s =
     (case s of
        y1 # y2 # y3 # y4 # rest \<Rightarrow>
          (case dropHyphen rest of
             m1 # m2 # rest' \<Rightarrow>
               (case dropHyphen rest' of
                  [d1, d2] \<Rightarrow> dateFromDigits y1 y2 y3 y4 m1 m2 d1 d2
                | _ \<Rightarrow> None)
           | _ \<Rightarrow> None)
      | _ \<Rightarrow> None)"

definition isValid :: "jsdate \<Rightarrow> bool" where
  "isValid d \<longleftrightarrow> d \<noteq> None"

text \<open>
  The decimal digits of a number that is not negative, and the same padded with zeros to
  a length, as \<open>addLeadingZeros\<close> of the library does. The year of the era, the month and
  the day are positive.
\<close>

definition digitChar :: "int \<Rightarrow> char" where
  "digitChar d = ''0123456789'' ! nat d"

function digits :: "int \<Rightarrow> string" where
  "digits n = (if n < 10 then [digitChar n] else digits (n div 10) @ [digitChar (n mod 10)])"
  by pat_completeness auto
termination
  by (relation "measure nat") auto

declare digits.simps [simp del]

definition addLeadingZeros :: "int \<Rightarrow> nat \<Rightarrow> string" where
  "addLeadingZeros n len = replicate (len - length (digits n)) (CHR ''0'') @ digits n"

text \<open>
  The pattern \<open>yyyy-MM-dd\<close> on a valid date. The library writes the year of the era: a
  year \<open>y \<le> 0\<close> is written as \<open>1 - y\<close>; a year above 9999 takes five digits or more.
\<close>

definition formatYMD :: "int \<Rightarrow> string" where
  "formatYMD n =
     (case civil_from_days n of
        (y, m, d) \<Rightarrow>
          addLeadingZeros (if 0 < y then y else 1 - y) 4 @ ''-''
            @ addLeadingZeros m 2 @ ''-'' @ addLeadingZeros d 2)"

text \<open>\<open>format\<close> throws a \<open>RangeError\<close> on the invalid date.\<close>

definition formatDate :: "jsdate \<Rightarrow> error + string" where
  "formatDate dt = (case dt of None \<Rightarrow> Inl RangeError | Some n \<Rightarrow> Inr (formatYMD n))"

text \<open>
  Day arithmetic. In the program a date beyond the range of \<open>Date\<close> (past the year
  275760) is invalid and cannot be written; in the model it is a day whose year is
  written with more than four digits and does not read back. The engine reads every
  date back that it goes on with, so it throws in both.
\<close>

fun addDays :: "jsdate \<Rightarrow> jsnum \<Rightarrow> jsdate" where
  "addDays (Some n) (Num k) = Some (n + k)"
| "addDays _ _ = None"

fun subDays :: "jsdate \<Rightarrow> jsnum \<Rightarrow> jsdate" where
  "subDays (Some n) (Num k) = Some (n - k)"
| "subDays _ _ = None"

fun differenceInDays :: "jsdate \<Rightarrow> jsdate \<Rightarrow> jsnum" where
  "differenceInDays (Some a) (Some b) = Num (a - b)"
| "differenceInDays _ _ = NaN"

section \<open>Data model\<close>

text \<open>
  Of a \<open>DayLog\<close> the engine reads the date and the period flag; the other fields
  (intensity, symptoms, moods, notes, water, sleep) are carried along and never read.
\<close>

record DayLog =
  date :: string
  isPeriod :: bool

record UserSettings =
  avgCycleLength :: jsnum
  avgPeriodLength :: jsnum
  lastPeriodStartManual :: "string option"

record CycleStats =
  avgCycleLength :: jsnum
  avgPeriodLength :: jsnum
  lastPeriodStart :: "string option"
  nextPeriodDate :: "string option"
  ovulationDate :: "string option"
  fertileWindow :: "string list"
  currentDayOfCycle :: "jsnum option"

datatype CyclePhaseType = menstrual | folicular | ovulatoria | lutea

text \<open>
  Stats that carry the two lengths and no prediction: what the engine returns when it
  has no anchor. The classifier reads the two lengths only.
\<close>

definition lengthsOnly :: "jsnum \<Rightarrow> jsnum \<Rightarrow> CycleStats" where
  "lengthsOnly cycleLen periodLen =
     \<lparr>CycleStats.avgCycleLength = cycleLen, avgPeriodLength = periodLen,
      lastPeriodStart = None, nextPeriodDate = None, ovulationDate = None,
      fertileWindow = [], currentDayOfCycle = None\<rparr>"

text \<open>
  The log collection is an object keyed by date string; \<open>Object.values\<close> lists its
  entries in insertion order.
\<close>

type_synonym logs = "(string \<times> DayLog) list"

definition object_values :: "logs \<Rightarrow> DayLog list" where
  "object_values ls = map snd ls"

text \<open>
  The application stores an entry under its own date (\<open>[log.date]: log\<close>), and an object
  has a key once: then the log holds one entry per date. The type does not say so, and
  logs loaded from storage or from a backup are not checked.
\<close>

definition keyedByDate :: "logs \<Rightarrow> bool" where
  "keyedByDate ls \<longleftrightarrow> distinct (map fst ls) \<and> list_all (\<lambda>(k, l). date l = k) ls"

text \<open>
  The dates that the application writes itself come from \<open>formatDate\<close>: four digits, a
  hyphen, two digits, a hyphen, two digits.
\<close>

definition isYMD :: "string \<Rightarrow> bool" where
  "isYMD s \<longleftrightarrow>
     (case s of
        [y1, y2, y3, y4, h1, m1, m2, h2, d1, d2] \<Rightarrow>
          h1 = CHR ''-'' \<and> h2 = CHR ''-'' \<and> list_all isDigit [y1, y2, y3, y4, m1, m2, d1, d2]
      | _ \<Rightarrow> False)"

section \<open>The phase classifier\<close>

definition getCyclePhase :: "jsnum \<Rightarrow> CycleStats \<Rightarrow> CyclePhaseType" where
  "getCyclePhase dayOfCycle stats =
     (if js_le dayOfCycle (CycleStats.avgPeriodLength stats) then menstrual
      else
        (let ovulationDay = js_sub (CycleStats.avgCycleLength stats) (Num 14) in
           if js_lt dayOfCycle (js_sub ovulationDay (Num 2)) then folicular
           else if js_le dayOfCycle (js_add ovulationDay (Num 1)) then ovulatoria
           else lutea))"

section \<open>The statistics engine\<close>

text \<open>
  The period days: the logs flagged as period, sorted by date string. The comparison is
  modelled by the order of the character codes, with which \<open>localeCompare\<close> agrees on
  strings of digits and hyphens: in both orders a hyphen comes before every digit.
\<close>

definition periodDays :: "logs \<Rightarrow> DayLog list" where
  "periodDays ls = sort_key date (filter isPeriod (object_values ls))"

text \<open>
  The grouping loop. Its state is the previous period day (none at the first index),
  the groups closed so far and the group being filled.
\<close>

fun groupLoop :: "string option \<Rightarrow> string list \<Rightarrow> string list list \<Rightarrow> string list \<Rightarrow> string list list" where
  "groupLoop prev [] periods currentPeriod =
     (if currentPeriod \<noteq> [] then periods @ [currentPeriod] else periods)"
| "groupLoop prev (cur # rest) periods currentPeriod =
     (if (case prev of None \<Rightarrow> False
          | Some p \<Rightarrow> differenceInDays (parseISO cur) (parseISO p) = Num 1)
      then groupLoop (Some cur) rest periods (currentPeriod @ [cur])
      else groupLoop (Some cur) rest
             (if currentPeriod \<noteq> [] then periods @ [currentPeriod] else periods) [cur])"

definition groupPeriods :: "DayLog list \<Rightarrow> string list list" where
  "groupPeriods pd = groupLoop None (map date pd) [] []"

text \<open>The day differences between the starts of consecutive groups.\<close>

fun cycleIntervals :: "string list list \<Rightarrow> jsnum list" where
  "cycleIntervals (p # q # rest) =
     differenceInDays (parseISO (hd q)) (parseISO (hd p)) # cycleIntervals (q # rest)"
| "cycleIntervals _ = []"

definition sum_js :: "jsnum list \<Rightarrow> jsnum" where
  "sum_js xs = foldl js_add (Num 0) xs"

text \<open>
  The lengths and the anchor after the history has been read: the settings or their
  defaults, overwritten from the groups when there is a period day.
\<close>

definition settingsFallback :: "UserSettings option \<Rightarrow> jsnum \<times> jsnum \<times> string option" where
  "settingsFallback settings =
     (case settings of
        None \<Rightarrow> (Num 28, Num 5, None)
      | Some s \<Rightarrow>
          ((if js_truthy (UserSettings.avgCycleLength s) then UserSettings.avgCycleLength s else Num 28),
           (if js_truthy (UserSettings.avgPeriodLength s) then UserSettings.avgPeriodLength s else Num 5),
           (case lastPeriodStartManual s of
              None \<Rightarrow> None
            | Some a \<Rightarrow> if a = [] then None else Some a)))"

definition lengthsAndAnchor :: "logs \<Rightarrow> UserSettings option \<Rightarrow> jsnum \<times> jsnum \<times> string option" where
  "lengthsAndAnchor ls settings =
     (case settingsFallback settings of
        (cycleLen0, periodLen0, anchor0) \<Rightarrow>
          (let pd = periodDays ls in
             if pd \<noteq> [] then
               (let periods = groupPeriods pd;
                    cycleLen =
                      (if 1 < length periods
                       then round_div (sum_js (cycleIntervals periods)) (length (cycleIntervals periods))
                       else cycleLen0);
                    periodLen =
                      round_div (Num (int (foldl (\<lambda>acc p. acc + length p) 0 periods))) (length periods)
                in (cycleLen, periodLen, Some (hd (last periods))))
             else (cycleLen0, periodLen0, anchor0)))"

text \<open>
  The fertile window: the loop runs \<open>i\<close> from \<open>-3\<close> to \<open>1\<close> and writes the ovulation
  date shifted by \<open>i\<close> days.
\<close>

definition fertileDates :: "jsdate \<Rightarrow> jsdate list" where
  "fertileDates ovulationDateObj = map (\<lambda>i. addDays ovulationDateObj (Num i)) [-3, -2, -1, 0, 1]"

fun formatAll :: "jsdate list \<Rightarrow> error + string list" where
  "formatAll [] = Inr []"
| "formatAll (d # ds) =
     (case formatDate d of
        Inl e \<Rightarrow> Inl e
      | Inr s \<Rightarrow> (case formatAll ds of Inl e \<Rightarrow> Inl e | Inr ss \<Rightarrow> Inr (s # ss)))"

text \<open>
  \<open>calculateCycleStats\<close>. The current date, which the code reads from the clock with
  \<open>startOfToday\<close>, is the first argument. The result is the thrown error or the record.
\<close>

definition calculateCycleStats :: "int \<Rightarrow> logs \<Rightarrow> UserSettings option \<Rightarrow> error + CycleStats" where
  "calculateCycleStats today ls settings =
     (case lengthsAndAnchor ls settings of
        (cycleLen, periodLen, anchor) \<Rightarrow>
          (case anchor of
             None \<Rightarrow> Inr (lengthsOnly cycleLen periodLen)
           | Some a \<Rightarrow>
               if a = [] \<or> \<not> isValid (parseISO a) then Inr (lengthsOnly cycleLen periodLen)
               else
                 (case formatDate (addDays (parseISO a) cycleLen) of
                    Inl e \<Rightarrow> Inl e
                  | Inr nextPeriod \<Rightarrow>
                      (let ovulationDateObj = subDays (parseISO nextPeriod) (Num 14) in
                         case formatDate ovulationDateObj of
                           Inl e \<Rightarrow> Inl e
                         | Inr ovulation \<Rightarrow>
                             (case formatAll (fertileDates ovulationDateObj) of
                                Inl e \<Rightarrow> Inl e
                              | Inr window \<Rightarrow>
                                  (let dayOfCycle =
                                         js_add (differenceInDays (Some today) (parseISO a)) (Num 1)
                                   in Inr \<lparr>CycleStats.avgCycleLength = cycleLen,
                                           avgPeriodLength = periodLen,
                                           lastPeriodStart = Some a,
                                           nextPeriodDate = Some nextPeriod,
                                           ovulationDate = Some ovulation,
                                           fertileWindow = window,
                                           currentDayOfCycle =
                                             (if js_lt (Num 0) dayOfCycle
                                              then Some (js_add (js_rem (js_sub dayOfCycle (Num 1)) cycleLen)
                                                           (Num 1))
                                              else None)\<rparr>))))))"

section \<open>The calendar-day resolver\<close>

record DayStatus =
  isMenstruation :: "bool option"
  isPredictedMenstruation :: bool
  isOvulation :: bool
  isFertile :: bool
  log :: "DayLog option"
  dKey :: string
  phase :: "CyclePhaseType option"
  dayOfCycle :: "jsnum option"

text \<open>
  \<open>getDayStatus\<close> of the application, for a valid calendar day. The logs and the stats,
  which the code reads from the enclosing component, are arguments.
\<close>

definition getDayStatus :: "logs \<Rightarrow> CycleStats \<Rightarrow> int \<Rightarrow> DayStatus" where
  "getDayStatus ls stats day =
     (let key = formatYMD day;
          lg = map_of ls key;
          doc =
            (case lastPeriodStart stats of
               None \<Rightarrow> None
             | Some a \<Rightarrow>
                 if a = [] then None
                 else
                   (let diff = js_add (differenceInDays (Some day) (parseISO a)) (Num 1) in
                      if js_lt (Num 0) diff
                      then Some (js_add (js_rem (js_sub diff (Num 1)) (CycleStats.avgCycleLength stats)) (Num 1))
                      else None))
      in \<lparr>isMenstruation = map_option isPeriod lg,
          isPredictedMenstruation = (nextPeriodDate stats = Some key),
          isOvulation = (ovulationDate stats = Some key),
          isFertile = (key \<in> set (fertileWindow stats)),
          log = lg, dKey = key,
          phase =
            (case doc of
               None \<Rightarrow> None
             | Some n \<Rightarrow> if js_truthy n then Some (getCyclePhase n stats) else None),
          dayOfCycle = doc\<rparr>)"

text \<open>
  The phase of today as the application's summary computes it from the stats.
\<close>

definition currentPhase :: "CycleStats \<Rightarrow> CyclePhaseType option" where
  "currentPhase stats =
     (case currentDayOfCycle stats of None \<Rightarrow> None | Some n \<Rightarrow> Some (getCyclePhase n stats))"

section \<open>Inputs of the worked examples\<close>

text \<open>A log entry of a period day, stored under its date.\<close>

definition periodLog :: "string \<Rightarrow> string \<times> DayLog" where
  "periodLog d = (d, \<lparr>date = d, isPeriod = True\<rparr>)"

definition logsJanuary :: logs where
  "logsJanuary = map periodLog
     [''2024-01-01'', ''2024-01-02'', ''2024-01-03'',
      ''2024-01-29'', ''2024-01-30'', ''2024-01-31'', ''2024-02-01'', ''2024-02-02'']"

definition logsMarch :: logs where
  "logsMarch = map periodLog [''2024-03-01'', ''2024-03-02'', ''2024-03-04'']"

text \<open>
  Two period entries, each stored under its own date, for one and the same day: the
  date is written once with hyphens and once without. \<open>Object.values\<close> lists the key
  that is a canonical number first.
\<close>

definition logsTwoForms :: logs where
  "logsTwoForms = map periodLog [''20240101'', ''2024-01-01'']"


text \<open>Settings with a cycle length and a period length of 0 and a manual anchor.\<close>

definition settingsZero :: "string \<Rightarrow> UserSettings" where
  "settingsZero a =
     \<lparr>UserSettings.avgCycleLength = Num 0, avgPeriodLength = Num 0, lastPeriodStartManual = Some a\<rparr>"

text \<open>Settings with the default lengths and a manual anchor.\<close>

definition settingsManual :: "string \<Rightarrow> UserSettings" where
  "settingsManual a =
     \<lparr>UserSettings.avgCycleLength = Num 28, avgPeriodLength = Num 5, lastPeriodStartManual = Some a\<rparr>"

section \<open>The calendar: the day number grows with the date\<close>

lemma ceil_div:
  fixes y k :: int
  assumes "0 < k"
  shows "(y + (k - 1)) div k = y div k + (if y mod k = 0 then 0 else 1)"
proof -
  define q r where "q = y div k" and "r = y mod k"
  have y: "y = q * k + r" by (simp add: q_def r_def)
  have r: "0 \<le> r" "r < k" using assms by (simp_all add: r_def)
  have "(y + (k - 1)) div k = q + (r + (k - 1)) div k"
    unfolding y using assms by (simp add: add.assoc)
  also have "(r + (k - 1)) div k = (if r = 0 then 0 else 1)"
  proof (cases "r = 0")
    case True
    then show ?thesis using assms by simp
  next
    case False
    then have "0 \<le> r - 1" "r - 1 < k" using r by simp_all
    then have z: "(r - 1) div k = 0" by simp
    have "(r + (k - 1)) div k = (r - 1 + k) div k" by (simp add: algebra_simps)
    also have "\<dots> = (r - 1) div k + 1"
      using assms by (intro div_add_self2) simp
    finally show ?thesis using False z by simp
  qed
  finally show ?thesis by (simp add: q_def r_def)
qed

lemma mod_400:
  fixes y :: int
  assumes "y mod 400 = 0" shows "y mod 100 = 0" and "y mod 4 = 0"
proof -
  have d: "400 dvd y" using assms by (simp add: dvd_eq_mod_eq_0)
  have "(100::int) dvd 400" and "(4::int) dvd 400" by simp_all
  with d have "100 dvd y" and "4 dvd y" using dvd_trans by blast+
  then show "y mod 100 = 0" and "y mod 4 = 0" by (simp_all add: dvd_eq_mod_eq_0)
qed

lemma mod_100:
  fixes y :: int
  assumes "y mod 100 = 0" shows "y mod 4 = 0"
proof -
  have d: "100 dvd y" using assms by (simp add: dvd_eq_mod_eq_0)
  have "(4::int) dvd 100" by simp
  with d have "4 dvd y" using dvd_trans by blast
  then show ?thesis by (simp add: dvd_eq_mod_eq_0)
qed


lemma daysBeforeYear_next:
  "daysBeforeYear (y + 1) = daysBeforeYear y + 365 + (if isLeapYear y then 1 else 0)"
proof -
  have a: "(y + 3) div 4 = y div 4 + (if y mod 4 = 0 then 0 else 1)"
    using ceil_div [of 4 y] by simp
  have b: "(y + 99) div 100 = y div 100 + (if y mod 100 = 0 then 0 else 1)"
    using ceil_div [of 100 y] by simp
  have c: "(y + 399) div 400 = y div 400 + (if y mod 400 = 0 then 0 else 1)"
    using ceil_div [of 400 y] by simp
  have a': "(y + 1 + 3) div 4 = y div 4 + 1"
    by simp
  have b': "(y + 1 + 99) div 100 = y div 100 + 1"
    by simp
  have c': "(y + 1 + 399) div 400 = y div 400 + 1"
    by simp
  show ?thesis
  proof (cases "y mod 400 = 0")
    case True
    with mod_400 [OF True] show ?thesis
      unfolding daysBeforeYear_def a b c a' b' c' by (simp add: isLeapYear_def)
  next
    case n400: False
    show ?thesis
    proof (cases "y mod 100 = 0")
      case True
      with n400 mod_100 [OF True] show ?thesis
        unfolding daysBeforeYear_def a b c a' b' c' by (simp add: isLeapYear_def)
    next
      case False
      with n400 show ?thesis
        unfolding daysBeforeYear_def a b c a' b' c' by (simp add: isLeapYear_def)
    qed
  qed
qed

lemma daysBeforeYear_mono:
  assumes "y \<le> y'" shows "daysBeforeYear y \<le> daysBeforeYear y'"
  using assms
proof (induction y' rule: int_ge_induct)
  case base
  show ?case by simp
next
  case (step i)
  then show ?case by (simp add: daysBeforeYear_next)
qed

lemma daysBeforeMonth_next:
  assumes "1 \<le> m" "m \<le> 11"
  shows "daysBeforeMonth y (m + 1) = daysBeforeMonth y m + daysInMonth y m"
proof -
  from assms have "m = 1 \<or> m = 2 \<or> m = 3 \<or> m = 4 \<or> m = 5 \<or> m = 6 \<or> m = 7 \<or> m = 8 \<or> m = 9 \<or> m = 10 \<or> m = (11::int)"
    by arith
  then show ?thesis
    by (elim disjE) (simp_all add: daysBeforeMonth_def daysInMonth_def)
qed

lemma daysInMonth_pos: "0 < daysInMonth y m"
  by (simp add: daysInMonth_def)

lemma daysBeforeMonth_mono:
  assumes "1 \<le> m" "m \<le> m'" "m' \<le> 12"
  shows "daysBeforeMonth y m \<le> daysBeforeMonth y m'"
  using assms(2,1,3)
proof (induction m' rule: int_ge_induct)
  case base
  show ?case by simp
next
  case (step i)
  then have "daysBeforeMonth y (i + 1) = daysBeforeMonth y i + daysInMonth y i"
    by (intro daysBeforeMonth_next) auto
  with step daysInMonth_pos [of y i] show ?case by simp
qed

lemma daysBeforeMonth_12:
  "daysBeforeMonth y 12 + 31 = 365 + (if isLeapYear y then 1 else 0)"
  by (simp add: daysBeforeMonth_def)

lemma daysBeforeMonth_1: "daysBeforeMonth y 1 = 0"
  by (simp add: daysBeforeMonth_def)

lemma dayOfYear_upper:
  assumes "1 \<le> m" "m \<le> 12" "d \<le> daysInMonth y m"
  shows "daysBeforeMonth y m + d \<le> 365 + (if isLeapYear y then 1 else 0)"
proof (cases "m = 12")
  case True
  with assms(3) daysBeforeMonth_12 [of y] show ?thesis
    by (simp add: daysInMonth_def)
next
  case False
  with assms have m: "m \<le> 11" by simp
  have "daysBeforeMonth y m + d \<le> daysBeforeMonth y (m + 1)"
    using daysBeforeMonth_next [OF assms(1) m] assms(3) by simp
  also have "\<dots> \<le> daysBeforeMonth y 12"
    using assms m by (intro daysBeforeMonth_mono) auto
  also have "\<dots> \<le> 365 + (if isLeapYear y then 1 else 0)"
    using daysBeforeMonth_12 [of y] by simp
  finally show ?thesis .
qed

text \<open>The day number grows with the date.\<close>

lemma days_from_civil_mono:
  assumes v: "1 \<le> m" "m \<le> 12" "1 \<le> d" "d \<le> daysInMonth y m"
    and v': "1 \<le> m'" "m' \<le> 12" "1 \<le> d'" "d' \<le> daysInMonth y' m'"
    and lt: "y < y' \<or> (y = y' \<and> (m < m' \<or> (m = m' \<and> d < d')))"
  shows "days_from_civil y m d < days_from_civil y' m' d'"
proof -
  consider "y < y'" | "y = y'" "m < m'" | "y = y'" "m = m'" "d < d'"
    using lt by auto
  then show ?thesis
  proof cases
    case 1
    have "days_from_civil y m d < daysBeforeYear (y + 1)"
      using dayOfYear_upper [OF v(1,2,4)] by (simp add: days_from_civil_def daysBeforeYear_next)
    also have "\<dots> \<le> daysBeforeYear y'"
      using 1 by (intro daysBeforeYear_mono) simp
    also have "\<dots> \<le> days_from_civil y' m' d'"
      using daysBeforeMonth_mono [of 1 m' y'] v' by (simp add: days_from_civil_def daysBeforeMonth_1)
    finally show ?thesis .
  next
    case 2
    then have m: "m \<le> 11" using v' by simp
    have "daysBeforeMonth y m + d \<le> daysBeforeMonth y (m + 1)"
      using daysBeforeMonth_next [OF v(1) m] v(4) by simp
    also have "\<dots> \<le> daysBeforeMonth y m'"
      using 2 v v' by (intro daysBeforeMonth_mono) auto
    finally show ?thesis
      using 2 v'(3) by (simp add: days_from_civil_def)
  next
    case 3
    then show ?thesis by (simp add: days_from_civil_def)
  qed
qed


lemma parseISO_Nil: "parseISO [] = None"
  by (simp add: parseISO_def)

lemma parseISO_extended:
  "parseISO [y1, y2, y3, y4, CHR ''-'', m1, m2, CHR ''-'', d1, d2]
     = dateFromDigits y1 y2 y3 y4 m1 m2 d1 d2"
  by (simp add: parseISO_def dropHyphen_def)

text \<open>What the parser has read from a date in the form \<open>yyyy-MM-dd\<close>.\<close>

lemma parseISO_SomeD:
  assumes "parseISO s = Some a" and "isYMD s"
  obtains y1 y2 y3 y4 m1 m2 d1 d2 where
    "s = [y1, y2, y3, y4, CHR ''-'', m1, m2, CHR ''-'', d1, d2]"
    "list_all isDigit [y1, y2, y3, y4, m1, m2, d1, d2]"
    "1 \<le> 10 * digitVal m1 + digitVal m2" "10 * digitVal m1 + digitVal m2 \<le> 12"
    "1 \<le> 10 * digitVal d1 + digitVal d2"
    "10 * digitVal d1 + digitVal d2
       \<le> daysInMonth (1000 * digitVal y1 + 100 * digitVal y2 + 10 * digitVal y3 + digitVal y4)
            (10 * digitVal m1 + digitVal m2)"
    "a = days_from_civil (1000 * digitVal y1 + 100 * digitVal y2 + 10 * digitVal y3 + digitVal y4)
           (10 * digitVal m1 + digitVal m2) (10 * digitVal d1 + digitVal d2)"
proof -
  from assms(2) obtain c0 c1 c2 c3 c5 c6 c8 c9 where
    s: "s = [c0, c1, c2, c3, CHR ''-'', c5, c6, CHR ''-'', c8, c9]"
    by (auto simp: isYMD_def split: list.splits)
  from assms(1) have d: "dateFromDigits c0 c1 c2 c3 c5 c6 c8 c9 = Some a"
    unfolding s by (simp add: parseISO_extended)
  then show ?thesis
    using that [of c0 c1 c2 c3 c5 c6 c8 c9] s
    unfolding dateFromDigits_def Let_def
    by (auto split: if_splits)
qed

lemma digit_less:
  assumes "isDigit c" "isDigit c'" "c < c'"
  shows "digitVal c < digitVal c'"
  using assms by (simp add: isDigit_def digitVal_def less_char_def)

lemma digit_range:
  assumes "isDigit c" shows "0 \<le> digitVal c" "digitVal c \<le> 9"
  using assms by (simp_all add: isDigit_def digitVal_def)

text \<open>Two digits compare as the numbers they write.\<close>

lemma two_digits_less:
  assumes "isDigit a" "isDigit b" "isDigit a'" "isDigit b'"
    and "a < a' \<or> (a = a' \<and> b < b')"
  shows "10 * digitVal a + digitVal b < 10 * digitVal a' + digitVal b'"
  using assms digit_less [of a a'] digit_less [of b b'] digit_range [of b] digit_range [of b']
  by auto

lemma four_digits_less:
  assumes "isDigit a" "isDigit b" "isDigit c" "isDigit d" "isDigit a'" "isDigit b'" "isDigit c'" "isDigit d'"
    and "a < a' \<or> (a = a' \<and> (b < b' \<or> (b = b' \<and> (c < c' \<or> (c = c' \<and> d < d')))))"
  shows "1000 * digitVal a + 100 * digitVal b + 10 * digitVal c + digitVal d
           < 1000 * digitVal a' + 100 * digitVal b' + 10 * digitVal c' + digitVal d'"
  using assms digit_less [of a a'] digit_less [of b b'] digit_less [of c c'] digit_less [of d d']
    digit_range [of b] digit_range [of b'] digit_range [of c] digit_range [of c']
    digit_range [of d] digit_range [of d']
  by auto

text \<open>
  On dates in the form \<open>yyyy-MM-dd\<close>, the order of the strings is the order of the
  days.
\<close>

lemma parseISO_mono:
  assumes s: "parseISO s = Some a" and t: "parseISO t = Some b" and lt: "s < t"
    and ys: "isYMD s" and yt: "isYMD t"
  shows "a < b"
proof -
  from s obtain y1 y2 y3 y4 m1 m2 d1 d2 where
    s': "s = [y1, y2, y3, y4, CHR ''-'', m1, m2, CHR ''-'', d1, d2]"
    and ds: "list_all isDigit [y1, y2, y3, y4, m1, m2, d1, d2]"
    and vs: "1 \<le> 10 * digitVal m1 + digitVal m2" "10 * digitVal m1 + digitVal m2 \<le> 12"
    "1 \<le> 10 * digitVal d1 + digitVal d2"
    "10 * digitVal d1 + digitVal d2
       \<le> daysInMonth (1000 * digitVal y1 + 100 * digitVal y2 + 10 * digitVal y3 + digitVal y4)
            (10 * digitVal m1 + digitVal m2)"
    and a: "a = days_from_civil (1000 * digitVal y1 + 100 * digitVal y2 + 10 * digitVal y3 + digitVal y4)
           (10 * digitVal m1 + digitVal m2) (10 * digitVal d1 + digitVal d2)"
    using ys by (rule parseISO_SomeD)
  from t obtain z1 z2 z3 z4 n1 n2 e1 e2 where
    t': "t = [z1, z2, z3, z4, CHR ''-'', n1, n2, CHR ''-'', e1, e2]"
    and dt: "list_all isDigit [z1, z2, z3, z4, n1, n2, e1, e2]"
    and vt: "1 \<le> 10 * digitVal n1 + digitVal n2" "10 * digitVal n1 + digitVal n2 \<le> 12"
    "1 \<le> 10 * digitVal e1 + digitVal e2"
    "10 * digitVal e1 + digitVal e2
       \<le> daysInMonth (1000 * digitVal z1 + 100 * digitVal z2 + 10 * digitVal z3 + digitVal z4)
            (10 * digitVal n1 + digitVal n2)"
    and b: "b = days_from_civil (1000 * digitVal z1 + 100 * digitVal z2 + 10 * digitVal z3 + digitVal z4)
           (10 * digitVal n1 + digitVal n2) (10 * digitVal e1 + digitVal e2)"
    using yt by (rule parseISO_SomeD)
  define y where "y = 1000 * digitVal y1 + 100 * digitVal y2 + 10 * digitVal y3 + digitVal y4"
  define y' where "y' = 1000 * digitVal z1 + 100 * digitVal z2 + 10 * digitVal z3 + digitVal z4"
  define m where "m = 10 * digitVal m1 + digitVal m2"
  define m' where "m' = 10 * digitVal n1 + digitVal n2"
  define d where "d = 10 * digitVal d1 + digitVal d2"
  define d' where "d' = 10 * digitVal e1 + digitVal e2"
  consider
      (year) "y1 < z1 \<or> (y1 = z1 \<and> (y2 < z2 \<or> (y2 = z2 \<and> (y3 < z3 \<or> (y3 = z3 \<and> y4 < z4)))))"
    | (month) "y1 = z1" "y2 = z2" "y3 = z3" "y4 = z4" "m1 < n1 \<or> (m1 = n1 \<and> m2 < n2)"
    | (day) "y1 = z1" "y2 = z2" "y3 = z3" "y4 = z4" "m1 = n1" "m2 = n2" "d1 < e1 \<or> (d1 = e1 \<and> d2 < e2)"
    using lt unfolding s' t' by auto
  then have "y < y' \<or> (y = y' \<and> (m < m' \<or> (m = m' \<and> d < d')))"
  proof cases
    case year
    then have "y < y'"
      unfolding y_def y'_def using ds dt by (intro four_digits_less) simp_all
    then show ?thesis by simp
  next
    case month
    then have "m < m'"
      unfolding m_def m'_def using ds dt by (intro two_digits_less) simp_all
    with month show ?thesis by (simp add: y_def y'_def)
  next
    case day
    then have "d < d'"
      unfolding d_def d'_def using ds dt by (intro two_digits_less) simp_all
    with day show ?thesis by (simp add: y_def y'_def m_def m'_def)
  qed
  then show ?thesis
    unfolding a b using vs vt
    by (intro days_from_civil_mono) (simp_all add: y_def y'_def m_def m'_def d_def d'_def)
qed

section \<open>The calendar: reading back a written date\<close>

lemma ceil_div_bounds:
  fixes y k :: int
  assumes "0 < k"
  shows "y \<le> k * ((y + (k - 1)) div k)" and "k * ((y + (k - 1)) div k) \<le> y + (k - 1)"
proof -
  have e: "k * ((y + (k - 1)) div k) = y + (k - 1) - (y + (k - 1)) mod k"
    by (simp add: algebra_simps minus_mod_eq_mult_div [symmetric])
  have "0 \<le> (y + (k - 1)) mod k" and "(y + (k - 1)) mod k < k"
    using assms by simp_all
  with e show "y \<le> k * ((y + (k - 1)) div k)"
    by linarith
  from e \<open>0 \<le> (y + (k - 1)) mod k\<close> show "k * ((y + (k - 1)) div k) \<le> y + (k - 1)"
    by linarith
qed

text \<open>A year is 146097 / 400 days long on average.\<close>

lemma daysBeforeYear_bounds:
  shows "146097 * y - 396 \<le> 400 * daysBeforeYear y"
    and "400 * daysBeforeYear y \<le> 146097 * y + 699"
proof -
  define a b c where "a = (y + 3) div 4" and "b = (y + 99) div 100" and "c = (y + 399) div 400"
  have a: "y \<le> 4 * a" "4 * a \<le> y + 3"
    using ceil_div_bounds [of 4 y] by (simp_all add: a_def)
  have b: "y \<le> 100 * b" "100 * b \<le> y + 99"
    using ceil_div_bounds [of 100 y] by (simp_all add: b_def)
  have c: "y \<le> 400 * c" "400 * c \<le> y + 399"
    using ceil_div_bounds [of 400 y] by (simp_all add: c_def)
  have d: "daysBeforeYear y = 365 * y + a - b + c"
    by (simp add: daysBeforeYear_def a_def b_def c_def)
  have a': "100 * y \<le> 400 * a" "400 * a \<le> 100 * y + 300"
    using a by simp_all
  have b': "4 * y \<le> 400 * b" "400 * b \<le> 4 * y + 396"
    using b by simp_all
  have e: "400 * daysBeforeYear y = 146000 * y + 400 * a - 400 * b + 400 * c"
    by (simp add: d)
  show "146097 * y - 396 \<le> 400 * daysBeforeYear y"
    unfolding e using a' b' c by linarith
  show "400 * daysBeforeYear y \<le> 146097 * y + 699"
    unfolding e using a' b' c by linarith
qed

lemma yearFromDay_bracket:
  shows "daysBeforeYear (yearFromDay n) \<le> n"
    and "n < daysBeforeYear (yearFromDay n + 1)"
proof -
  define e where "e = (400 * n) div 146097"
  have r: "146097 * e \<le> 400 * n" "400 * n < 146097 * e + 146097"
  proof -
    have "146097 * e = 400 * n - (400 * n) mod 146097"
      by (simp add: e_def algebra_simps minus_mod_eq_mult_div [symmetric])
    moreover have "0 \<le> (400 * n) mod 146097" and "(400 * n) mod 146097 < 146097"
      by simp_all
    ultimately have "146097 * e \<le> 400 * n \<and> 400 * n < 146097 * e + 146097"
      by linarith
    then show "146097 * e \<le> 400 * n" "400 * n < 146097 * e + 146097"
      by simp_all
  qed
  have "400 * daysBeforeYear (e - 1) \<le> 146097 * e - 145398"
    using daysBeforeYear_bounds(2) [of "e - 1"] by (simp add: algebra_simps)
  with r have "400 * daysBeforeYear (e - 1) \<le> 400 * n"
    by linarith
  then have lo: "daysBeforeYear (e - 1) \<le> n"
    by simp
  have "146097 * e + 291798 \<le> 400 * daysBeforeYear (e + 2)"
    using daysBeforeYear_bounds(1) [of "e + 2"] by (simp add: algebra_simps)
  with r have "400 * n < 400 * daysBeforeYear (e + 2)"
    by linarith
  then have hi: "n < daysBeforeYear (e + 2)"
    by simp
  have y: "yearFromDay n = (if n < daysBeforeYear e then e - 1
        else if daysBeforeYear (e + 1) \<le> n then e + 1 else e)"
    by (simp add: yearFromDay_def e_def)
  show "daysBeforeYear (yearFromDay n) \<le> n"
    unfolding y using lo by simp
  show "n < daysBeforeYear (yearFromDay n + 1)"
    unfolding y using hi by (auto simp: add.commute)
qed


lemma daysBeforeMonth_table:
  "daysBeforeMonth y 1 = 0"
  "daysBeforeMonth y 2 = 31"
  "daysBeforeMonth y 3 = 59 + (if isLeapYear y then 1 else 0)"
  "daysBeforeMonth y 4 = 90 + (if isLeapYear y then 1 else 0)"
  "daysBeforeMonth y 5 = 120 + (if isLeapYear y then 1 else 0)"
  "daysBeforeMonth y 6 = 151 + (if isLeapYear y then 1 else 0)"
  "daysBeforeMonth y 7 = 181 + (if isLeapYear y then 1 else 0)"
  "daysBeforeMonth y 8 = 212 + (if isLeapYear y then 1 else 0)"
  "daysBeforeMonth y 9 = 243 + (if isLeapYear y then 1 else 0)"
  "daysBeforeMonth y 10 = 273 + (if isLeapYear y then 1 else 0)"
  "daysBeforeMonth y 11 = 304 + (if isLeapYear y then 1 else 0)"
  "daysBeforeMonth y 12 = 334 + (if isLeapYear y then 1 else 0)"
  by (simp_all add: daysBeforeMonth_def)

lemma monthFromDay_bracket:
  assumes "0 \<le> k" and "k < 365 + (if isLeapYear y then 1 else 0)"
  shows "1 \<le> monthFromDay y k \<and> monthFromDay y k \<le> 12
    \<and> daysBeforeMonth y (monthFromDay y k) \<le> k
    \<and> k < daysBeforeMonth y (monthFromDay y k) + daysInMonth y (monthFromDay y k)"
  using assms unfolding monthFromDay_def daysBeforeMonth_table
  by (simp add: daysBeforeMonth_table daysInMonth_def)

lemma civil_from_days_valid:
  assumes "civil_from_days n = (y, m, d)"
  shows "1 \<le> m \<and> m \<le> 12 \<and> 1 \<le> d \<and> d \<le> daysInMonth y m \<and> days_from_civil y m d = n"
proof -
  define k where "k = n - daysBeforeYear (yearFromDay n)"
  from assms have y: "y = yearFromDay n" and m: "m = monthFromDay y k"
    and d: "d = k - daysBeforeMonth y m + 1"
    by (auto simp: civil_from_days_def Let_def k_def)
  have "0 \<le> k" and "k < 365 + (if isLeapYear y then 1 else 0)"
    using yearFromDay_bracket [of n] daysBeforeYear_next [of y] by (simp_all add: k_def y)
  from monthFromDay_bracket [OF this] show ?thesis
    unfolding m [symmetric] d by (simp add: days_from_civil_def k_def y)
qed

lemma days_from_civil_inj:
  assumes "1 \<le> m" "m \<le> 12" "1 \<le> d" "d \<le> daysInMonth y m"
    and "1 \<le> m'" "m' \<le> 12" "1 \<le> d'" "d' \<le> daysInMonth y' m'"
    and "days_from_civil y m d = days_from_civil y' m' d'"
  shows "y = y' \<and> m = m' \<and> d = d'"
proof (rule ccontr)
  assume "\<not> (y = y' \<and> m = m' \<and> d = d')"
  then consider "y < y' \<or> (y = y' \<and> (m < m' \<or> (m = m' \<and> d < d')))"
    | "y' < y \<or> (y' = y \<and> (m' < m \<or> (m' = m \<and> d' < d)))"
    by linarith
  then show False
  proof cases
    case 1
    from days_from_civil_mono [OF assms(1-8) 1] assms(9) show False by simp
  next
    case 2
    from days_from_civil_mono [OF assms(5-8) assms(1-4) 2] assms(9) show False by simp
  qed
qed

text \<open>The two directions of the calendar are inverse to each other.\<close>

lemma civil_from_days_from_civil:
  assumes "1 \<le> m" "m \<le> 12" "1 \<le> d" "d \<le> daysInMonth y m"
  shows "civil_from_days (days_from_civil y m d) = (y, m, d)"
proof -
  obtain y' m' d' where c: "civil_from_days (days_from_civil y m d) = (y', m', d')"
    by (metis prod_cases3)
  from civil_from_days_valid [OF c]
  have v: "1 \<le> m'" "m' \<le> 12" "1 \<le> d'" "d' \<le> daysInMonth y' m'"
    and e: "days_from_civil y' m' d' = days_from_civil y m d"
    by simp_all
  from days_from_civil_inj [OF v assms e] c show ?thesis by simp
qed

lemma digitChar_digit:
  assumes "0 \<le> d" "d \<le> 9"
  shows "isDigit (digitChar d) \<and> digitVal (digitChar d) = d"
proof -
  from assms have "d = 0 \<or> d = 1 \<or> d = 2 \<or> d = 3 \<or> d = 4 \<or> d = 5 \<or> d = 6 \<or> d = 7 \<or> d = 8 \<or> d = 9"
    by arith
  then show ?thesis
    by (elim disjE) (simp_all add: digitChar_def isDigit_def digitVal_def)
qed

lemma digitChar_0: "digitChar 0 = CHR ''0''"
  by (simp add: digitChar_def)

lemma digits_1: "0 \<le> n \<Longrightarrow> n < 10 \<Longrightarrow> digits n = [digitChar n]"
  by (simp add: digits.simps)

lemma digits_2:
  assumes "10 \<le> n" "n < 100"
  shows "digits n = [digitChar (n div 10), digitChar (n mod 10)]"
proof -
  have "0 \<le> n div 10" "n div 10 < 10" using assms by simp_all
  then show ?thesis
    using assms by (subst digits.simps) (simp add: digits_1)
qed

lemma digits_3:
  assumes "100 \<le> n" "n < 1000"
  shows "digits n = [digitChar (n div 100), digitChar (n div 10 mod 10), digitChar (n mod 10)]"
proof -
  have "10 \<le> n div 10" "n div 10 < 100" using assms by simp_all
  moreover have "n div 10 div 10 = n div 100"
    by (simp add: div_mult2_eq [symmetric])
  ultimately show ?thesis
    using assms by (subst digits.simps) (simp add: digits_2)
qed

lemma digits_4:
  assumes "1000 \<le> n" "n < 10000"
  shows "digits n = [digitChar (n div 1000), digitChar (n div 100 mod 10),
                     digitChar (n div 10 mod 10), digitChar (n mod 10)]"
proof -
  have "100 \<le> n div 10" "n div 10 < 1000" using assms by simp_all
  moreover have "n div 10 div 100 = n div 1000" "n div 10 div 10 = n div 100"
    by (simp_all add: div_mult2_eq [symmetric])
  ultimately show ?thesis
    using assms by (subst digits.simps) (simp add: digits_3)
qed

lemma replicate_3: "replicate 3 c = [c, c, c]"
  by (simp add: numeral_3_eq_3)

lemma replicate_2: "replicate 2 c = [c, c]"
  by (simp add: numeral_2_eq_2)

lemma addLeadingZeros_2:
  assumes "0 \<le> n" "n < 100"
  shows "addLeadingZeros n 2 = [digitChar (n div 10), digitChar (n mod 10)]"
proof (cases "n < 10")
  case True
  with assms show ?thesis
    by (simp add: addLeadingZeros_def digits_1 digitChar_0)
next
  case False
  with assms show ?thesis
    by (simp add: addLeadingZeros_def digits_2)
qed

lemma addLeadingZeros_4:
  assumes "0 \<le> n" "n < 10000"
  shows "addLeadingZeros n 4 = [digitChar (n div 1000), digitChar (n div 100 mod 10),
                               digitChar (n div 10 mod 10), digitChar (n mod 10)]"
proof -
  consider "n < 10" | "10 \<le> n" "n < 100" | "100 \<le> n" "n < 1000" | "1000 \<le> n"
    by linarith
  then show ?thesis
  proof cases
    case 1
    with assms show ?thesis
      by (simp add: addLeadingZeros_def digits_1 digitChar_0 replicate_3 replicate_2)
  next
    case 2
    with assms show ?thesis
      by (simp add: addLeadingZeros_def digits_2 digitChar_0 replicate_3 replicate_2)
  next
    case 3
    with assms show ?thesis
      by (simp add: addLeadingZeros_def digits_3 digitChar_0 replicate_3 replicate_2)
  next
    case 4
    with assms show ?thesis
      by (simp add: addLeadingZeros_def digits_4)
  qed
qed

lemma four_digits_value:
  fixes n :: int
  shows "1000 * (n div 1000) + 100 * (n div 100 mod 10) + 10 * (n div 10 mod 10) + n mod 10 = n"
proof -
  define q3 r2 r1 r0 where "q3 = n div 1000" and "r2 = n div 100 mod 10"
    and "r1 = n div 10 mod 10" and "r0 = n mod 10"
  have d: "n div 10 div 10 = n div 100" "n div 100 div 10 = n div 1000"
    by (simp_all add: div_mult2_eq [symmetric])
  have a: "n = 10 * (n div 10) + r0"
    by (simp add: r0_def)
  have b: "n div 10 = 10 * (n div 100) + r1"
    unfolding r1_def d(1) [symmetric] by simp
  have c: "n div 100 = 10 * q3 + r2"
    unfolding r2_def q3_def d(2) [symmetric] by simp
  have "n = 1000 * q3 + 100 * r2 + 10 * r1 + r0"
    by (subst a, subst b, subst c) (simp add: algebra_simps)
  then show ?thesis
    by (simp add: q3_def r2_def r1_def r0_def)
qed

lemma daysBeforeYear_1: "daysBeforeYear 1 = 366"
  by (simp add: daysBeforeYear_def)

lemma daysBeforeYear_10000: "daysBeforeYear 10000 = 3652425"
  by (simp add: daysBeforeYear_def)

text \<open>A date of the years 1 to 9999 reads back as written.\<close>

lemma parseISO_formatYMD:
  assumes "366 \<le> n" and "n < 3652425"
  shows "parseISO (formatYMD n) = Some n"
proof -
  obtain y m d where c: "civil_from_days n = (y, m, d)"
    by (metis prod_cases3)
  from civil_from_days_valid [OF c]
  have v: "1 \<le> m" "m \<le> 12" "1 \<le> d" "d \<le> daysInMonth y m" and n: "days_from_civil y m d = n"
    by simp_all
  have y: "y = yearFromDay n"
    using c by (auto simp: civil_from_days_def Let_def)
  have y1: "1 \<le> y"
  proof (rule ccontr)
    assume "\<not> 1 \<le> y"
    then have "daysBeforeYear (y + 1) \<le> daysBeforeYear 1"
      by (intro daysBeforeYear_mono) simp
    with yearFromDay_bracket(2) [of n] assms(1) show False
      by (simp add: y daysBeforeYear_1)
  qed
  have y2: "y < 10000"
  proof (rule ccontr)
    assume "\<not> y < 10000"
    then have "daysBeforeYear 10000 \<le> daysBeforeYear y"
      by (intro daysBeforeYear_mono) simp
    with yearFromDay_bracket(1) [of n] assms(2) show False
      by (simp add: y daysBeforeYear_10000)
  qed
  have d31: "d \<le> 31"
    using v(4) by (simp add: daysInMonth_def split: if_splits)
  have f: "formatYMD n =
      [digitChar (y div 1000), digitChar (y div 100 mod 10), digitChar (y div 10 mod 10),
       digitChar (y mod 10), CHR ''-'', digitChar (m div 10), digitChar (m mod 10), CHR ''-'',
       digitChar (d div 10), digitChar (d mod 10)]"
    using y1 y2 v d31 by (simp add: formatYMD_def c addLeadingZeros_4 addLeadingZeros_2)
  have dg: "isDigit (digitChar (y div 1000)) \<and> digitVal (digitChar (y div 1000)) = y div 1000"
    "isDigit (digitChar (y div 100 mod 10)) \<and> digitVal (digitChar (y div 100 mod 10)) = y div 100 mod 10"
    "isDigit (digitChar (y div 10 mod 10)) \<and> digitVal (digitChar (y div 10 mod 10)) = y div 10 mod 10"
    "isDigit (digitChar (y mod 10)) \<and> digitVal (digitChar (y mod 10)) = y mod 10"
    "isDigit (digitChar (m div 10)) \<and> digitVal (digitChar (m div 10)) = m div 10"
    "isDigit (digitChar (m mod 10)) \<and> digitVal (digitChar (m mod 10)) = m mod 10"
    "isDigit (digitChar (d div 10)) \<and> digitVal (digitChar (d div 10)) = d div 10"
    "isDigit (digitChar (d mod 10)) \<and> digitVal (digitChar (d mod 10)) = d mod 10"
    using y1 y2 v d31 by (intro digitChar_digit; simp)+
  have m': "10 * (m div 10) + m mod 10 = m" and d': "10 * (d div 10) + d mod 10 = d"
    by simp_all
  show ?thesis
    unfolding f parseISO_extended dateFromDigits_def
    using dg v n by (simp add: four_digits_value m' d')
qed

lemma days_from_civil_0001_01_01: "days_from_civil 1 1 1 = 366"
  by (simp add: days_from_civil_def daysBeforeYear_def daysBeforeMonth_def)

lemma days_from_civil_9999_12_31: "days_from_civil 9999 12 31 = 3652424"
  by (simp add: days_from_civil_def daysBeforeYear_def daysBeforeMonth_def isLeapYear_def)

lemma parseISO_formatYMD_years:
  assumes "days_from_civil 1 1 1 \<le> n" and "n \<le> days_from_civil 9999 12 31"
  shows "parseISO (formatYMD n) = Some n"
  using assms
  by (intro parseISO_formatYMD)
     (simp_all add: days_from_civil_0001_01_01 days_from_civil_9999_12_31)

section \<open>The shape of the engine's result\<close>

lemma lengthsAndAnchor_no_periodDays:
  "periodDays ls = [] \<Longrightarrow> lengthsAndAnchor ls settings = settingsFallback settings"
  by (simp add: lengthsAndAnchor_def split: prod.splits)

lemma calculateCycleStats_cong_settings:
  "settingsFallback a = settingsFallback b \<Longrightarrow>
     calculateCycleStats today ls a = calculateCycleStats today ls b"
  by (simp add: calculateCycleStats_def lengthsAndAnchor_def)

lemma formatAll_fertileDates:
  "formatAll (fertileDates (Some d)) = Inr (map formatYMD [d - 3, d - 2, d - 1, d, d + 1])"
  by (simp add: fertileDates_def formatDate_def)

text \<open>Without a valid anchor the engine returns the lengths and nothing else.\<close>

lemma calculateCycleStats_unresolved:
  assumes "lengthsAndAnchor ls settings = (cycleLen, periodLen, anchor)"
    and "anchor = None \<or> (\<exists>a. anchor = Some a \<and> parseISO a = None)"
  shows "calculateCycleStats today ls settings = Inr (lengthsOnly cycleLen periodLen)"
  using assms by (auto simp: calculateCycleStats_def isValid_def)

text \<open>
  With a valid anchor, a cycle length that is a number and a next period date that reads
  back, the engine returns the predictions.
\<close>

lemma calculateCycleStats_predictions:
  assumes l: "lengthsAndAnchor ls settings = (Num n, periodLen, Some a)"
    and a: "parseISO a = Some anchorDay"
    and nd: "parseISO (formatYMD (anchorDay + n)) = Some nextDay"
  shows "calculateCycleStats today ls settings =
           Inr \<lparr>CycleStats.avgCycleLength = Num n, avgPeriodLength = periodLen,
                lastPeriodStart = Some a, nextPeriodDate = Some (formatYMD (anchorDay + n)),
                ovulationDate = Some (formatYMD (nextDay - 14)),
                fertileWindow =
                  map formatYMD [nextDay - 17, nextDay - 16, nextDay - 15, nextDay - 14, nextDay - 13],
                currentDayOfCycle =
                  (if 0 < today - anchorDay + 1
                   then Some (js_add (js_rem (Num (today - anchorDay)) (Num n)) (Num 1))
                   else None)\<rparr>"
proof -
  have e: "a \<noteq> []"
    using a by (auto simp: parseISO_Nil)
  have w: "formatAll (fertileDates (Some (nextDay - 14)))
             = Inr (map formatYMD [nextDay - 17, nextDay - 16, nextDay - 15, nextDay - 14, nextDay - 13])"
    by (simp add: formatAll_fertileDates)
  show ?thesis
    unfolding calculateCycleStats_def l
    by (simp add: e a nd w isValid_def formatDate_def Let_def del: list.map)
qed

text \<open>
  In particular the engine returns them when the next period date falls in the years 1
  to 9999, and then the ovulation date is 14 days before the day \<open>anchorDay + n\<close>.
\<close>

lemma calculateCycleStats_returns:
  assumes "lengthsAndAnchor ls settings = (Num n, periodLen, Some a)"
    and "parseISO a = Some anchorDay"
    and "days_from_civil 1 1 1 \<le> anchorDay + n" and "anchorDay + n \<le> days_from_civil 9999 12 31"
  shows "calculateCycleStats today ls settings =
           Inr \<lparr>CycleStats.avgCycleLength = Num n, avgPeriodLength = periodLen,
                lastPeriodStart = Some a, nextPeriodDate = Some (formatYMD (anchorDay + n)),
                ovulationDate = Some (formatYMD (anchorDay + n - 14)),
                fertileWindow =
                  map formatYMD [anchorDay + n - 17, anchorDay + n - 16, anchorDay + n - 15,
                                 anchorDay + n - 14, anchorDay + n - 13],
                currentDayOfCycle =
                  (if 0 < today - anchorDay + 1
                   then Some (js_add (js_rem (Num (today - anchorDay)) (Num n)) (Num 1))
                   else None)\<rparr>"
  by (rule calculateCycleStats_predictions [OF assms(1,2) parseISO_formatYMD_years [OF assms(3,4)]])

text \<open>
  The engine throws when the anchor is valid and the cycle length is \<open>NaN\<close> or the next
  period date does not read back, as beyond the year 9999; by the lemmas above it returns
  in every other case.
\<close>

lemma calculateCycleStats_throws:
  assumes l: "lengthsAndAnchor ls settings = (cycleLen, periodLen, Some a)"
    and a: "parseISO a = Some anchorDay"
    and c: "cycleLen = NaN \<or> (\<exists>n. cycleLen = Num n \<and> parseISO (formatYMD (anchorDay + n)) = None)"
  shows "calculateCycleStats today ls settings = Inl RangeError"
proof -
  have e: "a \<noteq> []"
    using a by (auto simp: parseISO_Nil)
  show ?thesis
    unfolding calculateCycleStats_def l using c
    by (auto simp: e a isValid_def formatDate_def Let_def)
qed

text \<open>Conversely, stats with a last period start were computed from a valid anchor.\<close>

lemma calculateCycleStats_valid_anchor:
  assumes r: "calculateCycleStats today ls settings = Inr st" and a: "lastPeriodStart st = Some a"
  shows "\<exists>anchorDay n nextDay periodLen.
           lengthsAndAnchor ls settings = (Num n, periodLen, Some a)
         \<and> parseISO a = Some anchorDay
         \<and> parseISO (formatYMD (anchorDay + n)) = Some nextDay
         \<and> st = \<lparr>CycleStats.avgCycleLength = Num n, avgPeriodLength = periodLen,
                  lastPeriodStart = Some a, nextPeriodDate = Some (formatYMD (anchorDay + n)),
                  ovulationDate = Some (formatYMD (nextDay - 14)),
                  fertileWindow =
                    map formatYMD [nextDay - 17, nextDay - 16, nextDay - 15, nextDay - 14, nextDay - 13],
                  currentDayOfCycle =
                    (if 0 < today - anchorDay + 1
                     then Some (js_add (js_rem (Num (today - anchorDay)) (Num n)) (Num 1))
                     else None)\<rparr>"
proof -
  obtain cycleLen periodLen anchor where l: "lengthsAndAnchor ls settings = (cycleLen, periodLen, anchor)"
    by (metis prod_cases3)
  have v: "\<not> (anchor = None \<or> (\<exists>a. anchor = Some a \<and> parseISO a = None))"
  proof
    assume "anchor = None \<or> (\<exists>a. anchor = Some a \<and> parseISO a = None)"
    from calculateCycleStats_unresolved [OF l this, of today] r
    have "st = lengthsOnly cycleLen periodLen" by simp
    with a show False by (simp add: lengthsOnly_def)
  qed
  then obtain b anchorDay where b: "anchor = Some b" "parseISO b = Some anchorDay"
    by (cases anchor) auto
  note l' = l [unfolded b(1)]
  have t: "\<not> (cycleLen = NaN \<or> (\<exists>n. cycleLen = Num n \<and> parseISO (formatYMD (anchorDay + n)) = None))"
  proof
    assume "cycleLen = NaN \<or> (\<exists>n. cycleLen = Num n \<and> parseISO (formatYMD (anchorDay + n)) = None)"
    from calculateCycleStats_throws [OF l' b(2) this, of today] r show False by simp
  qed
  then obtain n where n1: "cycleLen = Num n"
    by (cases cycleLen) auto
  with t obtain nextDay where n2: "parseISO (formatYMD (anchorDay + n)) = Some nextDay"
    by (cases "parseISO (formatYMD (anchorDay + n))") auto
  note n = n1 n2
  note p = calculateCycleStats_predictions [OF l' [unfolded n(1)] b(2) n(2), of today]
  from p r a have "b = a" by auto
  with p r l' n b show ?thesis by auto
qed

text \<open>Stats without a last period start have no current day of the cycle.\<close>

lemma calculateCycleStats_no_lastPeriodStart:
  assumes "calculateCycleStats today ls settings = Inr st" and "lastPeriodStart st = None"
  shows "currentDayOfCycle st = None"
proof -
  obtain cycleLen periodLen anchor where l: "lengthsAndAnchor ls settings = (cycleLen, periodLen, anchor)"
    by (metis prod_cases3)
  show ?thesis
  proof (cases "anchor = None \<or> (\<exists>a. anchor = Some a \<and> parseISO a = None)")
    case True
    from calculateCycleStats_unresolved [OF l True, of today] assms(1)
    show ?thesis by (simp add: lengthsOnly_def)
  next
    case False
    then obtain a where a: "anchor = Some a" by auto
    with False have e: "a \<noteq> []" by (auto simp: parseISO_Nil)
    from assms show ?thesis
      unfolding calculateCycleStats_def l a using False e
      by (auto simp: isValid_def Let_def a split: sum.splits)
  qed
qed

lemma calculateCycleStats_avgCycleLength:
  assumes "calculateCycleStats today ls settings = Inr st"
  shows "CycleStats.avgCycleLength st = fst (lengthsAndAnchor ls settings)"
  using assms
  by (auto simp: calculateCycleStats_def lengthsOnly_def Let_def
      split: prod.splits option.splits if_splits sum.splits)

lemma calculateCycleStats_avgPeriodLength:
  assumes "calculateCycleStats today ls settings = Inr st"
  shows "CycleStats.avgPeriodLength st = fst (snd (lengthsAndAnchor ls settings))"
  using assms
  by (auto simp: calculateCycleStats_def lengthsOnly_def Let_def
      split: prod.splits option.splits if_splits sum.splits)

text \<open>With fewer than two groups the cycle length is the settings' length or its default.\<close>

lemma lengthsAndAnchor_few_groups:
  "length (groupPeriods (periodDays ls)) \<le> 1 \<Longrightarrow>
     fst (lengthsAndAnchor ls settings) = fst (settingsFallback settings)"
  by (auto simp: lengthsAndAnchor_def Let_def split: prod.splits)

section \<open>The phase classifier at its boundaries\<close>

text \<open>
  C1, as the code has it. With an average period length of 5 and an average cycle length
  of 28, so that the ovulation day is 14, the classifier gives menstrual for day 5,
  follicular for day 6, ovulatory for days 12, 13 and 15, and luteal for day 16. Day 12 is
  not below \<open>ovulationDay - 2 = 12\<close>, so it is the first ovulatory day.
\<close>

theorem getCyclePhase_boundaries:
  "getCyclePhase (Num 5) (lengthsOnly (Num 28) (Num 5)) = menstrual
    \<and> getCyclePhase (Num 6) (lengthsOnly (Num 28) (Num 5)) = folicular
    \<and> getCyclePhase (Num 12) (lengthsOnly (Num 28) (Num 5)) = ovulatoria
    \<and> getCyclePhase (Num 13) (lengthsOnly (Num 28) (Num 5)) = ovulatoria
    \<and> getCyclePhase (Num 15) (lengthsOnly (Num 28) (Num 5)) = ovulatoria
    \<and> getCyclePhase (Num 16) (lengthsOnly (Num 28) (Num 5)) = lutea"
  by (simp add: lengthsOnly_def getCyclePhase_def)

text \<open>
  C1, as specified, fails at day 12: the specification says follicular there, and the
  classifier answers ovulatory.
\<close>

theorem getCyclePhase_day12_not_folicular:
  "getCyclePhase (Num 12) (lengthsOnly (Num 28) (Num 5)) \<noteq> folicular"
  by (simp add: lengthsOnly_def getCyclePhase_def)

section \<open>Grouping and averaging on the January example\<close>

lemma periodDays_logsJanuary: "periodDays logsJanuary \<noteq> []"
  by code_simp

lemma groupPeriods_logsJanuary:
  "groupPeriods (periodDays logsJanuary) =
     [[''2024-01-01'', ''2024-01-02'', ''2024-01-03''],
      [''2024-01-29'', ''2024-01-30'', ''2024-01-31'', ''2024-02-01'', ''2024-02-02'']]"
  by code_simp

lemma cycleIntervals_logsJanuary:
  "cycleIntervals
     [[''2024-01-01'', ''2024-01-02'', ''2024-01-03''],
      [''2024-01-29'', ''2024-01-30'', ''2024-01-31'', ''2024-02-01'', ''2024-02-02'']] = [Num 28]"
  by code_simp

lemma lengthsAndAnchor_logsJanuary:
  "lengthsAndAnchor logsJanuary settings = (Num 28, Num 4, Some ''2024-01-29'')"
  unfolding lengthsAndAnchor_def Let_def groupPeriods_logsJanuary cycleIntervals_logsJanuary
  by (simp add: periodDays_logsJanuary sum_js_def split: prod.splits)

lemma parseISO_2024_01_29: "parseISO ''2024-01-29'' = Some 739279"
  by code_simp

lemma formatYMD_2024_02_26: "formatYMD 739307 = ''2024-02-26''"
  by code_simp

lemma parseISO_2024_02_26: "parseISO ''2024-02-26'' = Some 739307"
  by code_simp

text \<open>
  C2. The logs with the period days 2024-01-01 to 2024-01-03 and 2024-01-29 to
  2024-02-02 fall into exactly two groups, of three and of five days; the one interval
  between the group starts is 28 days; and for any settings and on any day the stats have
  an average period length of \<open>round ((3 + 5) / 2) = 4\<close>, an average cycle length of 28
  and the last period start 2024-01-29.
\<close>

theorem calculateCycleStats_logsJanuary:
  "groupPeriods (periodDays logsJanuary) =
     [[''2024-01-01'', ''2024-01-02'', ''2024-01-03''],
      [''2024-01-29'', ''2024-01-30'', ''2024-01-31'', ''2024-02-01'', ''2024-02-02'']]
   \<and> length (groupPeriods (periodDays logsJanuary)) = 2
   \<and> cycleIntervals (groupPeriods (periodDays logsJanuary)) = [Num 28]
   \<and> (\<exists>st. calculateCycleStats today logsJanuary settings = Inr st
         \<and> CycleStats.avgPeriodLength st = Num 4
         \<and> CycleStats.avgCycleLength st = Num 28
         \<and> lastPeriodStart st = Some ''2024-01-29'')"
proof -
  have "\<exists>st. calculateCycleStats today logsJanuary settings = Inr st
         \<and> CycleStats.avgPeriodLength st = Num 4
         \<and> CycleStats.avgCycleLength st = Num 28
         \<and> lastPeriodStart st = Some ''2024-01-29''"
    using calculateCycleStats_predictions [OF lengthsAndAnchor_logsJanuary parseISO_2024_01_29, of 739307 today settings]
    by (simp add: formatYMD_2024_02_26 parseISO_2024_02_26)
  note st = this
  note g = groupPeriods_logsJanuary
  have l: "length (groupPeriods (periodDays logsJanuary)) = 2"
    unfolding g by simp
  have c: "cycleIntervals (groupPeriods (periodDays logsJanuary)) = [Num 28]"
    unfolding g by (rule cycleIntervals_logsJanuary)
  show ?thesis
    by (intro conjI g l c st)
qed

section \<open>Predictions from a valid anchor\<close>

lemma lengthsAndAnchor_manual:
  "a \<noteq> [] \<Longrightarrow> lengthsAndAnchor [] (Some (settingsManual a)) = (Num 28, Num 5, Some a)"
  by (simp add: lengthsAndAnchor_def settingsFallback_def settingsManual_def periodDays_def
      object_values_def)

lemma parseISO_2024_01_01: "parseISO ''2024-01-01'' = Some 739251"
  by code_simp

lemma days_2024_01_29: "days_from_civil 2024 1 29 = 739279"
  by code_simp

lemma days_2024_01_30: "days_from_civil 2024 1 30 = 739280"
  by code_simp

lemma formatYMD_2024_01_29: "formatYMD 739279 = ''2024-01-29''"
  by code_simp

lemma formatYMD_2024_01_15: "formatYMD 739265 = ''2024-01-15''"
  by code_simp

lemma stats_manual_2024_01_01:
  "\<exists>st. calculateCycleStats today [] (Some (settingsManual ''2024-01-01'')) = Inr st
      \<and> lastPeriodStart st = Some ''2024-01-01'' \<and> CycleStats.avgCycleLength st = Num 28
      \<and> nextPeriodDate st = Some ''2024-01-29''
      \<and> currentDayOfCycle st =
          (if 0 < today - 739251 + 1
           then Some (js_add (js_rem (Num (today - 739251)) (Num 28)) (Num 1)) else None)"
  using calculateCycleStats_predictions [OF lengthsAndAnchor_manual parseISO_2024_01_01, of 739279 today]
  by (simp add: formatYMD_2024_01_29 parseISO_2024_01_29)

text \<open>
  C3. Whenever the engine returns stats with a last period start, that is, whenever it
  resolved a valid anchor, the anchor reads as a day \<open>anchorDay\<close>, the cycle length is a
  number \<open>n\<close>, and: the next period date is day \<open>anchorDay + n\<close>, written out; it reads
  back as a day \<open>nextDay\<close>, which is \<open>anchorDay + n\<close> itself for a date of the years 1 to
  9999; the ovulation date is the day 14 days before \<open>nextDay\<close>; the fertile window is
  the five consecutive days from 3 days before the ovulation day to 1 day after it; so
  the window has five entries and its fourth entry is the ovulation date. (By lemma
  \<open>calculateCycleStats_returns\<close> the engine returns such stats whenever the next period
  date falls in the years 1 to 9999.)
\<close>

theorem predictions_from_anchor:
  assumes "calculateCycleStats today ls settings = Inr st" and "lastPeriodStart st = Some a"
  shows "\<exists>anchorDay n nextDay.
           parseISO a = Some anchorDay
         \<and> CycleStats.avgCycleLength st = Num n
         \<and> nextPeriodDate st = Some (formatYMD (anchorDay + n))
         \<and> parseISO (formatYMD (anchorDay + n)) = Some nextDay
         \<and> (days_from_civil 1 1 1 \<le> anchorDay + n \<and> anchorDay + n \<le> days_from_civil 9999 12 31
               \<longrightarrow> nextDay = anchorDay + n)
         \<and> ovulationDate st = Some (formatYMD (nextDay - 14))
         \<and> fertileWindow st =
             map formatYMD [nextDay - 14 - 3, nextDay - 14 - 2, nextDay - 14 - 1, nextDay - 14, nextDay - 14 + 1]
         \<and> length (fertileWindow st) = 5
         \<and> Some (fertileWindow st ! 3) = ovulationDate st"
proof -
  from calculateCycleStats_valid_anchor [OF assms]
  obtain anchorDay n nextDay periodLen where
    "parseISO a = Some anchorDay" "parseISO (formatYMD (anchorDay + n)) = Some nextDay"
    "st = \<lparr>CycleStats.avgCycleLength = Num n, avgPeriodLength = periodLen,
                  lastPeriodStart = Some a, nextPeriodDate = Some (formatYMD (anchorDay + n)),
                  ovulationDate = Some (formatYMD (nextDay - 14)),
                  fertileWindow =
                    map formatYMD [nextDay - 17, nextDay - 16, nextDay - 15, nextDay - 14, nextDay - 13],
                  currentDayOfCycle =
                    (if 0 < today - anchorDay + 1
                     then Some (js_add (js_rem (Num (today - anchorDay)) (Num n)) (Num 1))
                     else None)\<rparr>"
    by blast
  moreover note parseISO_formatYMD_years [of "anchorDay + n"]
  ultimately show ?thesis by auto
qed

theorem predictions_from_anchor_witness:
  "\<exists>st. calculateCycleStats 739279 [] (Some (settingsManual ''2024-01-01'')) = Inr st
      \<and> lastPeriodStart st = Some ''2024-01-01''
      \<and> nextPeriodDate st = Some ''2024-01-29''
      \<and> ovulationDate st = Some ''2024-01-15''
      \<and> length (fertileWindow st) = 5
      \<and> fertileWindow st ! 3 = ''2024-01-15''"
proof -
  obtain st where st: "calculateCycleStats 739279 [] (Some (settingsManual ''2024-01-01'')) = Inr st"
    "lastPeriodStart st = Some ''2024-01-01''" "CycleStats.avgCycleLength st = Num 28"
    "nextPeriodDate st = Some ''2024-01-29''"
    using stats_manual_2024_01_01 by blast
  from predictions_from_anchor [OF st(1) st(2)] st
  show ?thesis
    by (auto simp: parseISO_2024_01_01 formatYMD_2024_01_29 parseISO_2024_01_29 formatYMD_2024_01_15)
qed

section \<open>The day of the cycle\<close>

lemma js_rem_nonneg: "0 \<le> x \<Longrightarrow> 1 \<le> n \<Longrightarrow> js_rem (Num x) (Num n) = Num (x mod n)"
  by (cases "x = 0") simp_all

text \<open>
  C4. For stats computed from a valid anchor with an average cycle length \<open>n \<ge> 1\<close>, let
  \<open>diff\<close> be the day difference from the anchor to the evaluation date plus 1. The
  current day of the cycle is null when \<open>diff \<le> 0\<close>, and otherwise it is
  \<open>((diff - 1) mod n) + 1\<close>, which lies between 1 and \<open>n\<close>. In particular, with the
  anchor 2024-01-01 and a cycle length of 28, the day of the cycle on 2024-01-29 is 1.
\<close>

theorem currentDayOfCycle_wraps:
  "(\<forall>today ls settings st a n.
      calculateCycleStats today ls settings = Inr st \<and> lastPeriodStart st = Some a
        \<and> CycleStats.avgCycleLength st = Num n \<and> 1 \<le> n \<longrightarrow>
      (\<exists>anchorDay diff.
          parseISO a = Some anchorDay \<and> diff = today - anchorDay + 1
        \<and> (diff \<le> 0 \<longrightarrow> currentDayOfCycle st = None)
        \<and> (0 < diff \<longrightarrow> currentDayOfCycle st = Some (Num ((diff - 1) mod n + 1))
              \<and> 1 \<le> (diff - 1) mod n + 1 \<and> (diff - 1) mod n + 1 \<le> n)))
   \<and> (\<exists>st. calculateCycleStats (days_from_civil 2024 1 29) [] (Some (settingsManual ''2024-01-01'')) = Inr st
         \<and> lastPeriodStart st = Some ''2024-01-01'' \<and> CycleStats.avgCycleLength st = Num 28
         \<and> currentDayOfCycle st = Some (Num 1))"
proof (intro conjI allI impI)
  fix today ls settings st a n
  assume h: "calculateCycleStats today ls settings = Inr st \<and> lastPeriodStart st = Some a
        \<and> CycleStats.avgCycleLength st = Num n \<and> 1 \<le> n"
  then have r: "calculateCycleStats today ls settings = Inr st" and a: "lastPeriodStart st = Some a"
    and n: "CycleStats.avgCycleLength st = Num n" "1 \<le> n" by auto
  from calculateCycleStats_valid_anchor [OF r a]
  obtain anchorDay m nextDay periodLen where
    p: "parseISO a = Some anchorDay" and
    st: "st = \<lparr>CycleStats.avgCycleLength = Num m, avgPeriodLength = periodLen,
                  lastPeriodStart = Some a, nextPeriodDate = Some (formatYMD (anchorDay + m)),
                  ovulationDate = Some (formatYMD (nextDay - 14)),
                  fertileWindow =
                    map formatYMD [nextDay - 17, nextDay - 16, nextDay - 15, nextDay - 14, nextDay - 13],
                  currentDayOfCycle =
                    (if 0 < today - anchorDay + 1
                     then Some (js_add (js_rem (Num (today - anchorDay)) (Num m)) (Num 1))
                     else None)\<rparr>"
    by blast
  from st n have m: "m = n" by simp
  define diff where "diff = today - anchorDay + 1"
  have b: "1 \<le> (diff - 1) mod n + 1 \<and> (diff - 1) mod n + 1 \<le> n"
  proof -
    have "0 \<le> (diff - 1) mod n" and "(diff - 1) mod n < n"
      using n(2) by simp_all
    then show ?thesis by linarith
  qed
  have c0: "diff \<le> 0 \<longrightarrow> currentDayOfCycle st = None"
    using st by (simp add: diff_def)
  have c1: "0 < diff \<longrightarrow> currentDayOfCycle st = Some (Num ((diff - 1) mod n + 1))"
  proof
    assume d: "0 < diff"
    then have "0 \<le> today - anchorDay" by (simp add: diff_def)
    from js_rem_nonneg [OF this n(2)]
    have "js_add (js_rem (Num (today - anchorDay)) (Num n)) (Num 1) = Num ((today - anchorDay) mod n + 1)"
      by simp
    moreover have "currentDayOfCycle st = Some (js_add (js_rem (Num (today - anchorDay)) (Num n)) (Num 1))"
      using st m d by (simp add: diff_def)
    ultimately show "currentDayOfCycle st = Some (Num ((diff - 1) mod n + 1))"
      by (simp add: diff_def)
  qed
  show "\<exists>anchorDay diff.
          parseISO a = Some anchorDay \<and> diff = today - anchorDay + 1
        \<and> (diff \<le> 0 \<longrightarrow> currentDayOfCycle st = None)
        \<and> (0 < diff \<longrightarrow> currentDayOfCycle st = Some (Num ((diff - 1) mod n + 1))
              \<and> 1 \<le> (diff - 1) mod n + 1 \<and> (diff - 1) mod n + 1 \<le> n)"
    using p c0 c1 b diff_def by blast
next
  show "\<exists>st. calculateCycleStats (days_from_civil 2024 1 29) [] (Some (settingsManual ''2024-01-01'')) = Inr st
         \<and> lastPeriodStart st = Some ''2024-01-01'' \<and> CycleStats.avgCycleLength st = Num 28
         \<and> currentDayOfCycle st = Some (Num 1)"
    using calculateCycleStats_predictions [OF lengthsAndAnchor_manual parseISO_2024_01_01, of 739279 739279]
    by (simp add: formatYMD_2024_01_29 parseISO_2024_01_29 days_2024_01_29)
qed

theorem currentDayOfCycle_wraps_witness:
  "\<exists>st. calculateCycleStats 739325 [] (Some (settingsManual ''2024-01-01'')) = Inr st
      \<and> lastPeriodStart st = Some ''2024-01-01'' \<and> CycleStats.avgCycleLength st = Num 28
      \<and> (1::int) \<le> 28 \<and> currentDayOfCycle st = Some (Num 19)"
proof -
  obtain st where st: "calculateCycleStats 739325 [] (Some (settingsManual ''2024-01-01'')) = Inr st"
    "lastPeriodStart st = Some ''2024-01-01''" "CycleStats.avgCycleLength st = Num 28"
    using stats_manual_2024_01_01 by blast
  from currentDayOfCycle_wraps [THEN conjunct1, rule_format, of 739325 "[]" _ st "''2024-01-01''" 28] st
  have "currentDayOfCycle st = Some (Num 19)"
    by (auto simp: parseISO_2024_01_01)
  with st show ?thesis by auto
qed

section \<open>No anchor\<close>

lemma parseISO_2024_02_30: "parseISO ''2024-02-30'' = None"
  by code_simp

text \<open>
  C5. When no anchor is resolvable, because there is neither a logged period day nor a
  manual anchor, or because the anchor string does not read as a calendar date, the
  engine returns the two lengths and, for the rest, null, null, null, the empty window
  and null. The lengths are the ones computed before; without a logged period day they
  are the settings' values, or 28 and 5 where the settings are absent or falsy.
\<close>

theorem calculateCycleStats_no_anchor:
  assumes "lengthsAndAnchor ls settings = (cycleLen, periodLen, anchor)"
    and "anchor = None \<or> (\<exists>a. anchor = Some a \<and> parseISO a = None)"
  shows "calculateCycleStats today ls settings =
           Inr \<lparr>CycleStats.avgCycleLength = cycleLen, avgPeriodLength = periodLen,
                lastPeriodStart = None, nextPeriodDate = None, ovulationDate = None,
                fertileWindow = [], currentDayOfCycle = None\<rparr>
    \<and> (periodDays ls = [] \<longrightarrow>
         cycleLen = (case settings of None \<Rightarrow> Num 28
                     | Some s \<Rightarrow> if js_truthy (UserSettings.avgCycleLength s)
                                 then UserSettings.avgCycleLength s else Num 28)
       \<and> periodLen = (case settings of None \<Rightarrow> Num 5
                     | Some s \<Rightarrow> if js_truthy (UserSettings.avgPeriodLength s)
                                 then UserSettings.avgPeriodLength s else Num 5)
       \<and> anchor = (case settings of None \<Rightarrow> None
                   | Some s \<Rightarrow> (case lastPeriodStartManual s of None \<Rightarrow> None
                                | Some a \<Rightarrow> if a = [] then None else Some a)))"
proof -
  have "calculateCycleStats today ls settings = Inr (lengthsOnly cycleLen periodLen)"
    using assms by (rule calculateCycleStats_unresolved)
  moreover have "periodDays ls = [] \<longrightarrow>
         cycleLen = (case settings of None \<Rightarrow> Num 28
                     | Some s \<Rightarrow> if js_truthy (UserSettings.avgCycleLength s)
                                 then UserSettings.avgCycleLength s else Num 28)
       \<and> periodLen = (case settings of None \<Rightarrow> Num 5
                     | Some s \<Rightarrow> if js_truthy (UserSettings.avgPeriodLength s)
                                 then UserSettings.avgPeriodLength s else Num 5)
       \<and> anchor = (case settings of None \<Rightarrow> None
                   | Some s \<Rightarrow> (case lastPeriodStartManual s of None \<Rightarrow> None
                                | Some a \<Rightarrow> if a = [] then None else Some a))"
    using assms(1)
    by (auto simp: lengthsAndAnchor_no_periodDays settingsFallback_def split: option.splits)
  ultimately show ?thesis by (simp add: lengthsOnly_def)
qed

theorem calculateCycleStats_no_anchor_witness:
  "calculateCycleStats 739279 [] None = Inr (lengthsOnly (Num 28) (Num 5))
   \<and> calculateCycleStats 739279 [] (Some (settingsManual ''2024-02-30''))
       = Inr (lengthsOnly (Num 28) (Num 5))"
proof -
  have p: "periodDays [] = []"
    by (simp add: periodDays_def object_values_def)
  have a: "lengthsAndAnchor [] None = (Num 28, Num 5, None)"
    by (simp add: lengthsAndAnchor_no_periodDays p settingsFallback_def)
  have b: "lengthsAndAnchor [] (Some (settingsManual ''2024-02-30'')) = (Num 28, Num 5, Some ''2024-02-30'')"
    by (simp add: lengthsAndAnchor_manual)
  show ?thesis
    using calculateCycleStats_no_anchor [OF a, of 739279]
          calculateCycleStats_no_anchor [OF b, of 739279]
    by (simp add: parseISO_2024_02_30 lengthsOnly_def)
qed

section \<open>The resolver and the engine\<close>

text \<open>
  The resolver recomputes the day of the cycle as the engine does. Its phase is the
  summary's phase unless the average cycle length is 0: then the day of the cycle is
  \<open>NaN\<close>, which the resolver takes as no day and the summary classifies.
\<close>

lemma getDayStatus_agrees_unless_zero:
  assumes "calculateCycleStats day ls settings = Inr st"
  shows "dayOfCycle (getDayStatus ls st day) = currentDayOfCycle st
    \<and> (CycleStats.avgCycleLength st \<noteq> Num 0 \<longrightarrow> phase (getDayStatus ls st day) = currentPhase st)"
proof (cases "lastPeriodStart st")
  case None
  from calculateCycleStats_no_lastPeriodStart [OF assms None] None
  show ?thesis by (simp add: getDayStatus_def currentPhase_def Let_def)
next
  case (Some a)
  from calculateCycleStats_valid_anchor [OF assms Some]
  obtain anchorDay n nextDay periodLen where
    p: "parseISO a = Some anchorDay" and
    st: "st = \<lparr>CycleStats.avgCycleLength = Num n, avgPeriodLength = periodLen,
                  lastPeriodStart = Some a, nextPeriodDate = Some (formatYMD (anchorDay + n)),
                  ovulationDate = Some (formatYMD (nextDay - 14)),
                  fertileWindow =
                    map formatYMD [nextDay - 17, nextDay - 16, nextDay - 15, nextDay - 14, nextDay - 13],
                  currentDayOfCycle =
                    (if 0 < day - anchorDay + 1
                     then Some (js_add (js_rem (Num (day - anchorDay)) (Num n)) (Num 1))
                     else None)\<rparr>"
    by blast
  have e: "a \<noteq> []" using p by (auto simp: parseISO_Nil)
  have d: "dayOfCycle (getDayStatus ls st day) = currentDayOfCycle st"
    unfolding st by (simp add: getDayStatus_def Let_def e p del: js_rem.simps)
  have t: "n \<noteq> 0 \<Longrightarrow> 0 \<le> x \<Longrightarrow> js_truthy (js_add (js_rem (Num x) (Num n)) (Num 1))" for x
  proof -
    assume "n \<noteq> 0" "0 \<le> x"
    then have "0 \<le> sgn x * (\<bar>x\<bar> mod \<bar>n\<bar>)"
      by (simp add: sgn_if)
    with \<open>n \<noteq> 0\<close> show ?thesis by simp
  qed
  have "phase (getDayStatus ls st day) = currentPhase st" if "n \<noteq> 0"
  proof (cases "0 < day - anchorDay + 1")
    case True
    then have "0 \<le> day - anchorDay" by simp
    from t [OF that this] True show ?thesis
      unfolding st by (simp add: getDayStatus_def currentPhase_def Let_def e p del: js_rem.simps)
  next
    case False
    then show ?thesis
      unfolding st by (simp add: getDayStatus_def currentPhase_def Let_def e p del: js_rem.simps)
  qed
  with d st show ?thesis by simp
qed






text \<open>The interval between the two groups is 0 in whichever order the two dates come.\<close>

lemma cycleIntervals_logsTwoForms:
  "cycleIntervals (groupPeriods (periodDays logsTwoForms)) = [Num 0]
   \<and> cycleIntervals (groupPeriods (rev (periodDays logsTwoForms))) = [Num 0]"
  by code_simp





section \<open>Logs with dates as the application writes them\<close>

text \<open>
  The application stores every entry under a date written by \<open>formatDate\<close>. On such
  logs the average cycle length is not 0, and the resolver and the summary agree. The
  grouping loop only cuts the list of dates into pieces:
\<close>

lemma concat_groupLoop:
  "concat (groupLoop prev ds periods cur) = concat periods @ cur @ ds"
  by (induction ds arbitrary: prev periods cur) auto

lemma groupLoop_nonempty:
  "[] \<notin> set periods \<Longrightarrow> [] \<notin> set (groupLoop prev ds periods cur)"
  by (induction ds arbitrary: prev periods cur) auto

text \<open>
  So the groups are not empty and, when there is a period day, there is a group: the
  reads of a group's first day and of the last group are in range.
\<close>

lemma groupPeriods_in_range:
  assumes "pd \<noteq> []"
  shows "groupPeriods pd \<noteq> [] \<and> [] \<notin> set (groupPeriods pd)"
proof -
  have "concat (groupPeriods pd) = map date pd"
    by (simp add: groupPeriods_def concat_groupLoop)
  with assms have "groupPeriods pd \<noteq> []"
    by auto
  moreover have "[] \<notin> set (groupPeriods pd)"
    unfolding groupPeriods_def by (rule groupLoop_nonempty) simp
  ultimately show ?thesis ..
qed

text \<open>
  Between groups of dates in the form \<open>yyyy-MM-dd\<close>, in strictly increasing order,
  every interval that is a number is at least 1.
\<close>

lemma cycleIntervals_positive:
  assumes "sorted_wrt (<) (concat G)" and "[] \<notin> set G" and "\<forall>s\<in>set (concat G). isYMD s"
  shows "\<forall>x\<in>set (cycleIntervals G). x = NaN \<or> (\<exists>n. x = Num n \<and> 1 \<le> n)"
  using assms
proof (induction G rule: cycleIntervals.induct)
  case (1 p q rest)
  from "1.prems" have ne: "p \<noteq> []" "q \<noteq> []" by auto
  then have m: "hd p \<in> set p" "hd q \<in> set q" by simp_all
  with "1.prems"(1) have lt: "hd p < hd q"
    by (auto simp: sorted_wrt_append)
  from m "1.prems"(3) have y: "isYMD (hd p)" "isYMD (hd q)"
    by auto
  have "differenceInDays (parseISO (hd q)) (parseISO (hd p)) = NaN
      \<or> (\<exists>n. differenceInDays (parseISO (hd q)) (parseISO (hd p)) = Num n \<and> 1 \<le> n)"
  proof (cases "parseISO (hd p)")
    case None
    then show ?thesis by simp
  next
    case a: (Some a)
    show ?thesis
    proof (cases "parseISO (hd q)")
      case None
      then show ?thesis by simp
    next
      case (Some b)
      from parseISO_mono [OF a Some lt y] a Some show ?thesis by simp
    qed
  qed
  moreover have "\<forall>x\<in>set (cycleIntervals (q # rest)). x = NaN \<or> (\<exists>n. x = Num n \<and> 1 \<le> n)"
    using "1.prems" by (intro "1.IH") (auto simp: sorted_wrt_append)
  ultimately show ?case by simp
qed simp_all

lemma foldl_js_add_NaN: "foldl js_add NaN xs = NaN"
  by (induction xs) simp_all

lemma sum_js_lower:
  assumes "\<forall>x\<in>set xs. x = NaN \<or> (\<exists>n. x = Num n \<and> 1 \<le> n)"
    and "foldl js_add (Num acc) xs = Num s"
  shows "acc + int (length xs) \<le> s"
  using assms
proof (induction xs arbitrary: acc)
  case Nil
  then show ?case by simp
next
  case (Cons x xs)
  show ?case
  proof (cases x)
    case NaN
    with Cons.prems(2) show ?thesis by (simp add: foldl_js_add_NaN)
  next
    case (Num n)
    with Cons.prems have n: "1 \<le> n" and f: "foldl js_add (Num (acc + n)) xs = Num s"
      by auto
    from Cons.IH [OF _ f] Cons.prems(1) have "acc + n + int (length xs) \<le> s"
      by simp
    with n show ?thesis by simp
  qed
qed

lemma round_div_positive:
  assumes "round_div x k = Num n" and "x = Num s" and "int k \<le> s" and "0 < k"
  shows "1 \<le> n"
proof -
  have "0 < (2 * s + int k) div (2 * int k)"
    using assms(3,4) by (simp add: pos_imp_zdiv_pos_iff)
  with assms show ?thesis by simp
qed

lemma length_cycleIntervals: "length (cycleIntervals G) = length G - 1"
  by (induction G rule: cycleIntervals.induct) simp_all

text \<open>
  The sorted period dates are strictly increasing when no two period entries carry the
  same date.
\<close>

lemma periodDays_strictly_sorted:
  assumes "distinct (map date (filter isPeriod (object_values ls)))"
  shows "sorted_wrt (<) (map date (periodDays ls))"
proof -
  let ?xs = "filter isPeriod (object_values ls)"
  have "sorted (map date (sort_key date ?xs))"
    by (rule sorted_sort_key)
  moreover have "distinct (map date (sort_key date ?xs))"
    using assms by (simp add: distinct_map)
  ultimately show ?thesis
    by (simp add: periodDays_def strict_sorted_iff)
qed

lemma settingsFallback_nonzero: "fst (settingsFallback settings) \<noteq> Num 0"
  by (cases settings) (auto simp: settingsFallback_def)

text \<open>
  Then the average cycle length is never 0: it is the settings' length or 28, or the
  rounded mean of intervals of at least one day, or \<open>NaN\<close>.
\<close>

lemma lengthsAndAnchor_nonzero:
  assumes d: "distinct (map date (filter isPeriod (object_values ls)))"
    and y: "\<forall>l\<in>set (filter isPeriod (object_values ls)). isYMD (date l)"
  shows "fst (lengthsAndAnchor ls settings) \<noteq> Num 0"
proof (cases "periodDays ls \<noteq> [] \<and> 1 < length (groupPeriods (periodDays ls))")
  case False
  then have "fst (lengthsAndAnchor ls settings) = fst (settingsFallback settings)"
    by (auto simp: lengthsAndAnchor_def Let_def split: prod.splits)
  then show ?thesis by (simp add: settingsFallback_nonzero)
next
  case True
  define G where "G = groupPeriods (periodDays ls)"
  have c: "concat G = map date (periodDays ls)"
    by (simp add: G_def groupPeriods_def concat_groupLoop)
  have ne: "[] \<notin> set G"
    unfolding G_def groupPeriods_def by (rule groupLoop_nonempty) simp
  have f: "\<forall>s\<in>set (concat G). isYMD s"
    using y by (auto simp: c periodDays_def)
  have pos: "\<forall>x\<in>set (cycleIntervals G). x = NaN \<or> (\<exists>n. x = Num n \<and> 1 \<le> n)"
    using periodDays_strictly_sorted [OF d] ne f by (intro cycleIntervals_positive) (simp_all add: c)
  have k: "0 < length (cycleIntervals G)"
    using True by (simp add: length_cycleIntervals G_def)
  have l: "fst (lengthsAndAnchor ls settings) = round_div (sum_js (cycleIntervals G)) (length (cycleIntervals G))"
    using True by (auto simp: lengthsAndAnchor_def Let_def G_def split: prod.splits)
  show ?thesis
  proof
    assume z: "fst (lengthsAndAnchor ls settings) = Num 0"
    with l have r: "round_div (sum_js (cycleIntervals G)) (length (cycleIntervals G)) = Num 0"
      by simp
    then obtain s where s: "sum_js (cycleIntervals G) = Num s"
      by (cases "sum_js (cycleIntervals G)") auto
    from sum_js_lower [OF pos s [unfolded sum_js_def]]
    have "int (length (cycleIntervals G)) \<le> s" by simp
    from round_div_positive [OF r s this k] show False by simp
  qed
qed

text \<open>
  So on a log that holds one entry per date, under dates in the form \<open>yyyy-MM-dd\<close>, the
  resolver and the summary agree on the day of the cycle and on the phase, for every
  settings and every day on which the engine returns.
\<close>

lemma getDayStatus_agrees_on_written_dates:
  assumes k: "keyedByDate ls" and y: "\<forall>k\<in>set (map fst ls). isYMD k"
    and r: "calculateCycleStats day ls settings = Inr st"
  shows "dayOfCycle (getDayStatus ls st day) = currentDayOfCycle st
    \<and> phase (getDayStatus ls st day) = currentPhase st"
proof -
  have m: "map date (object_values ls) = map fst ls"
    using k by (auto simp: keyedByDate_def object_values_def list_all_iff)
  then have "distinct (map date (object_values ls))"
    using k by (simp add: keyedByDate_def)
  then have d: "distinct (map date (filter isPeriod (object_values ls)))"
    by (rule distinct_map_filter)
  have "\<forall>l\<in>set (object_values ls). isYMD (date l)"
  proof
    fix l assume "l \<in> set (object_values ls)"
    then have "date l \<in> set (map date (object_values ls))" by simp
    then have "date l \<in> set (map fst ls)" by (simp only: m)
    with y show "isYMD (date l)" by blast
  qed
  then have f: "\<forall>l\<in>set (filter isPeriod (object_values ls)). isYMD (date l)"
    by simp
  have "CycleStats.avgCycleLength st \<noteq> Num 0"
    using lengthsAndAnchor_nonzero [OF d f, of settings] calculateCycleStats_avgCycleLength [OF r]
    by simp
  with getDayStatus_agrees_unless_zero [OF r] show ?thesis
    by simp
qed

section \<open>The current date is an input\<close>

text \<open>
  C7, as specified, fails: the engine reads the current date, so two calls
  with the same logs and the same settings on different days return different stats.
  With the anchor 2024-01-01 the day of the cycle is 1 on 2024-01-29 and 2 on 2024-01-30.
\<close>

theorem calculateCycleStats_depends_on_today:
  "calculateCycleStats (days_from_civil 2024 1 29) [] (Some (settingsManual ''2024-01-01''))
     \<noteq> calculateCycleStats (days_from_civil 2024 1 30) [] (Some (settingsManual ''2024-01-01''))"
proof -
  obtain st1 where st1: "calculateCycleStats 739279 [] (Some (settingsManual ''2024-01-01'')) = Inr st1"
    "currentDayOfCycle st1 = Some (Num 1)"
    using stats_manual_2024_01_01 [of 739279] by auto
  obtain st2 where st2: "calculateCycleStats 739280 [] (Some (settingsManual ''2024-01-01'')) = Inr st2"
    "currentDayOfCycle st2 = Some (Num 2)"
    using stats_manual_2024_01_01 [of 739280] by auto
  from st1 st2 have "calculateCycleStats 739279 [] (Some (settingsManual ''2024-01-01''))
          \<noteq> calculateCycleStats 739280 [] (Some (settingsManual ''2024-01-01''))"
    by auto
  then show ?thesis
    by (simp add: days_2024_01_29 days_2024_01_30)
qed

text \<open>
  C7, as the code has it. The stats are a function of the logs, the settings and the
  current date, and the current date reaches the current day of the cycle only: on two
  dates the engine throws alike or returns stats that agree in every other field.
\<close>

theorem calculateCycleStats_today_only_dayOfCycle:
  "map_sum id (\<lambda>st. st\<lparr>currentDayOfCycle := None\<rparr>) (calculateCycleStats today ls settings)
     = map_sum id (\<lambda>st. st\<lparr>currentDayOfCycle := None\<rparr>) (calculateCycleStats today' ls settings)"
  by (simp add: calculateCycleStats_def Let_def split: prod.splits option.splits sum.splits)

section \<open>A gap starts a new group\<close>

lemma groupLoop_periods:
  "groupLoop prev ds periods cur = periods @ groupLoop prev ds [] cur"
proof (induction ds arbitrary: prev periods cur)
  case Nil
  show ?case by simp
next
  case (Cons d ds)
  show ?case
    using Cons.IH [of "Some d" periods "cur @ [d]"]
          Cons.IH [of "Some d" "periods @ [cur]" "[d]"]
          Cons.IH [of "Some d" "[cur]" "[d]"]
          Cons.IH [of "Some d" periods "[d]"]
    by simp
qed

lemma groupLoop_gap:
  assumes "xs \<noteq> []"
    and "differenceInDays (parseISO y) (parseISO (last xs)) \<noteq> Num 1"
  shows "groupLoop prev (xs @ y # ys) periods cur
           = groupLoop prev xs periods cur @ groupLoop None (y # ys) [] []"
  using assms
proof (induction xs arbitrary: prev periods cur)
  case Nil
  then show ?case by simp
next
  case (Cons x xs)
  show ?case
  proof (cases "xs = []")
    case True
    with Cons.prems show ?thesis
      using groupLoop_periods [of "Some y" ys "periods @ [cur @ [x]]" "[y]"]
            groupLoop_periods [of "Some y" ys "periods @ [[x]]" "[y]"]
            groupLoop_periods [of "Some y" ys "periods @ [cur, [x]]" "[y]"]
      by simp
  next
    case False
    with Cons.prems have "differenceInDays (parseISO y) (parseISO (last xs)) \<noteq> Num 1"
      by simp
    from Cons.IH [OF False this] show ?thesis
      by simp
  qed
qed

lemma groupPeriods_gap:
  assumes "0 < i" and "i < length pd"
    and "differenceInDays (parseISO (date (pd ! i))) (parseISO (date (pd ! (i - 1)))) \<noteq> Num 1"
  shows "groupPeriods pd = groupPeriods (take i pd) @ groupPeriods (drop i pd)"
proof -
  have pd: "pd = take i pd @ pd ! i # drop (Suc i) pd"
    using assms(2) by (simp add: id_take_nth_drop)
  have ne: "map date (take i pd) \<noteq> []"
    using assms by auto
  have "last (take i pd) = pd ! (i - 1)"
    using assms ne by (simp add: last_conv_nth min_def)
  then have la: "last (map date (take i pd)) = date (pd ! (i - 1))"
    using ne by (simp add: last_map)
  have "groupPeriods pd
          = groupLoop None (map date (take i pd) @ date (pd ! i) # map date (drop (Suc i) pd)) [] []"
    unfolding groupPeriods_def by (subst pd) simp
  also have "\<dots> = groupLoop None (map date (take i pd)) [] []
                   @ groupLoop None (date (pd ! i) # map date (drop (Suc i) pd)) [] []"
    using groupLoop_gap [OF ne, of "date (pd ! i)"] assms(3) la by simp
  also have "date (pd ! i) # map date (drop (Suc i) pd) = map date (drop i pd)"
    using assms(2) by (simp add: Cons_nth_drop_Suc [symmetric])
  finally show ?thesis
    by (simp add: groupPeriods_def)
qed

lemma groupPeriods_logsMarch:
  "groupPeriods (periodDays logsMarch) = [[''2024-03-01'', ''2024-03-02''], [''2024-03-04'']]"
  by code_simp

lemma gap_logsMarch:
  "differenceInDays (parseISO (date (periodDays logsMarch ! 2)))
     (parseISO (date (periodDays logsMarch ! Suc 0))) = Num 2"
  by code_simp

lemma lengthsAndAnchor_logsMarch:
  "lengthsAndAnchor logsMarch settings = (Num 3, Num 2, Some ''2024-03-04'')"
proof -
  have p: "periodDays logsMarch \<noteq> []"
    by code_simp
  have c: "cycleIntervals [[''2024-03-01'', ''2024-03-02''], [''2024-03-04'']] = [Num 3]"
    by code_simp
  show ?thesis
    unfolding lengthsAndAnchor_def Let_def groupPeriods_logsMarch c
    by (simp add: p sum_js_def split: prod.splits)
qed

lemma parseISO_2024_03_04: "parseISO ''2024-03-04'' = Some 739314"
  by code_simp

text \<open>
  C8. The logs with the period days 2024-03-01, 2024-03-02 and 2024-03-04 fall into two
  groups, of lengths 2 and 1, not into one group of length 3; so the engine returns an
  average period length of \<open>round (3 / 2) = 2\<close>, an average cycle length of 3 and the
  last period start 2024-03-04. In general, wherever two consecutive sorted period days
  differ by anything but exactly one day, a new group starts: the groups of all the days
  are the groups of the days before the gap followed by the groups of the days after it.
\<close>

theorem gap_starts_new_group:
  "groupPeriods (periodDays logsMarch) = [[''2024-03-01'', ''2024-03-02''], [''2024-03-04'']]
   \<and> map length (groupPeriods (periodDays logsMarch)) = [2, 1]
   \<and> (\<exists>st. calculateCycleStats today logsMarch settings = Inr st
         \<and> CycleStats.avgPeriodLength st = Num 2
         \<and> CycleStats.avgCycleLength st = Num 3
         \<and> lastPeriodStart st = Some ''2024-03-04'')
   \<and> (\<forall>ls i. 0 < i \<and> i < length (periodDays ls)
         \<and> differenceInDays (parseISO (date (periodDays ls ! i)))
               (parseISO (date (periodDays ls ! (i - 1)))) \<noteq> Num 1
       \<longrightarrow> groupPeriods (periodDays ls)
            = groupPeriods (take i (periodDays ls)) @ groupPeriods (drop i (periodDays ls)))"
proof -
  have "days_from_civil 1 1 1 \<le> 739314 + 3" and "739314 + 3 \<le> days_from_civil 9999 12 31"
    by (simp_all add: days_from_civil_0001_01_01 days_from_civil_9999_12_31)
  from calculateCycleStats_returns [OF lengthsAndAnchor_logsMarch parseISO_2024_03_04 this]
  have "\<exists>st. calculateCycleStats today logsMarch settings = Inr st
         \<and> CycleStats.avgPeriodLength st = Num 2
         \<and> CycleStats.avgCycleLength st = Num 3
         \<and> lastPeriodStart st = Some ''2024-03-04''"
    by simp
  then show ?thesis
    using groupPeriods_gap by (simp add: groupPeriods_logsMarch)
qed

theorem gap_starts_new_group_witness:
  "groupPeriods (periodDays logsMarch)
     = groupPeriods (take 2 (periodDays logsMarch)) @ groupPeriods (drop 2 (periodDays logsMarch))
   \<and> groupPeriods (take 2 (periodDays logsMarch)) = [[''2024-03-01'', ''2024-03-02'']]
   \<and> groupPeriods (drop 2 (periodDays logsMarch)) = [[''2024-03-04'']]"
proof -
  have l: "length (periodDays logsMarch) = 3"
    by code_simp
  have a: "groupPeriods (take 2 (periodDays logsMarch)) = [[''2024-03-01'', ''2024-03-02'']]"
    by code_simp
  have b: "groupPeriods (drop 2 (periodDays logsMarch)) = [[''2024-03-04'']]"
    by code_simp
  from gap_starts_new_group [THEN conjunct2, THEN conjunct2, THEN conjunct2, rule_format, of 2 logsMarch]
  have "groupPeriods (periodDays logsMarch)
     = groupPeriods (take 2 (periodDays logsMarch)) @ groupPeriods (drop 2 (periodDays logsMarch))"
    by (simp add: l gap_logsMarch)
  with a b show ?thesis by simp
qed

section \<open>Falsy settings\<close>

lemma formatYMD_window_2024_01:
  "map formatYMD [739262, 739263, 739264, 739265, 739266]
     = [''2024-01-12'', ''2024-01-13'', ''2024-01-14'', ''2024-01-15'', ''2024-01-16'']"
  by code_simp

lemma periodDays_Nil: "periodDays [] = []"
  by (simp add: periodDays_def object_values_def)

text \<open>
  C9. Absent settings and falsy settings fields give way to the defaults, and the
  defaults are what the engine returns and computes with.

  \<^item> With a cycle length of 0 (or \<open>NaN\<close>) in the settings the engine returns what it
    returns with 28, with a period length of 0 (or \<open>NaN\<close>) what it returns with 5, with
    the empty string as manual anchor what it returns with no manual anchor, and
    without settings what it returns with 28, 5 and no anchor. The lengths taken from
    the settings are never 0.
  \<^item> The stats returned carry the substituted lengths wherever the settings decide
    them: the cycle length when the history has fewer than two groups, the period
    length when it has no period day. So with a cycle length of 0 and fewer than two
    groups the stats say 28, with a period length of 0 and no period day they say 5.
  \<^item> Without a period day, the empty string as manual anchor gives stats without an
    anchor and without predictions, as do absent settings, which give 28 and 5.
  \<^item> Without a period day and with settings of 0, 0 and a manual anchor that reads as
    the day \<open>anchorDay\<close>, the derived fields are computed with 28: the next period
    date is \<open>anchorDay + 28\<close>, the ovulation date 14 days before it, the window around
    that, and the day of the cycle wraps at 28. The engine returns them whenever the
    next period date falls in the years 1 to 9999.
\<close>

theorem settings_falsy_defaults:
  "calculateCycleStats today ls (Some (s\<lparr>UserSettings.avgCycleLength := Num 0\<rparr>))
     = calculateCycleStats today ls (Some (s\<lparr>UserSettings.avgCycleLength := Num 28\<rparr>))
   \<and> calculateCycleStats today ls (Some (s\<lparr>UserSettings.avgCycleLength := NaN\<rparr>))
     = calculateCycleStats today ls (Some (s\<lparr>UserSettings.avgCycleLength := Num 28\<rparr>))
   \<and> calculateCycleStats today ls (Some (s\<lparr>UserSettings.avgPeriodLength := Num 0\<rparr>))
     = calculateCycleStats today ls (Some (s\<lparr>UserSettings.avgPeriodLength := Num 5\<rparr>))
   \<and> calculateCycleStats today ls (Some (s\<lparr>UserSettings.avgPeriodLength := NaN\<rparr>))
     = calculateCycleStats today ls (Some (s\<lparr>UserSettings.avgPeriodLength := Num 5\<rparr>))
   \<and> calculateCycleStats today ls (Some (s\<lparr>lastPeriodStartManual := Some []\<rparr>))
     = calculateCycleStats today ls (Some (s\<lparr>lastPeriodStartManual := None\<rparr>))
   \<and> calculateCycleStats today ls None
     = calculateCycleStats today ls
         (Some \<lparr>UserSettings.avgCycleLength = Num 28, avgPeriodLength = Num 5,
                lastPeriodStartManual = None\<rparr>)
   \<and> fst (settingsFallback settings) \<noteq> Num 0
   \<and> fst (snd (settingsFallback settings)) \<noteq> Num 0
   \<and> (length (groupPeriods (periodDays ls)) \<le> 1
        \<and> calculateCycleStats today ls settings = Inr st
      \<longrightarrow> CycleStats.avgCycleLength st = fst (settingsFallback settings)
          \<and> CycleStats.avgCycleLength st \<noteq> Num 0)
   \<and> (periodDays ls = [] \<and> calculateCycleStats today ls settings = Inr st
      \<longrightarrow> CycleStats.avgPeriodLength st = fst (snd (settingsFallback settings))
          \<and> CycleStats.avgPeriodLength st \<noteq> Num 0)
   \<and> (length (groupPeriods (periodDays ls)) \<le> 1
        \<and> calculateCycleStats today ls (Some (s\<lparr>UserSettings.avgCycleLength := Num 0\<rparr>)) = Inr st0
      \<longrightarrow> CycleStats.avgCycleLength st0 = Num 28)
   \<and> (length (groupPeriods (periodDays ls)) \<le> 1
        \<and> calculateCycleStats today ls None = Inr stN
      \<longrightarrow> CycleStats.avgCycleLength stN = Num 28)
   \<and> (periodDays ls = []
        \<and> calculateCycleStats today ls (Some (s\<lparr>UserSettings.avgPeriodLength := Num 0\<rparr>)) = Inr st1
      \<longrightarrow> CycleStats.avgPeriodLength st1 = Num 5)
   \<and> (periodDays ls = [] \<longrightarrow>
        calculateCycleStats today ls (Some (s\<lparr>lastPeriodStartManual := Some []\<rparr>))
          = Inr (lengthsOnly (fst (settingsFallback (Some s))) (fst (snd (settingsFallback (Some s))))))
   \<and> (periodDays ls = [] \<longrightarrow>
        calculateCycleStats today ls None = Inr (lengthsOnly (Num 28) (Num 5)))
   \<and> (periodDays ls = [] \<longrightarrow>
        calculateCycleStats today ls (Some (settingsZero [])) = Inr (lengthsOnly (Num 28) (Num 5)))
   \<and> (periodDays ls = [] \<and> parseISO a = Some anchorDay
        \<and> days_from_civil 1 1 1 \<le> anchorDay + 28 \<and> anchorDay + 28 \<le> days_from_civil 9999 12 31
      \<longrightarrow> calculateCycleStats today ls (Some (settingsZero a))
            = Inr \<lparr>CycleStats.avgCycleLength = Num 28, avgPeriodLength = Num 5,
                   lastPeriodStart = Some a, nextPeriodDate = Some (formatYMD (anchorDay + 28)),
                   ovulationDate = Some (formatYMD (anchorDay + 14)),
                   fertileWindow =
                     map formatYMD [anchorDay + 11, anchorDay + 12, anchorDay + 13,
                                    anchorDay + 14, anchorDay + 15],
                   currentDayOfCycle =
                     (if 0 < today - anchorDay + 1
                      then Some (Num ((today - anchorDay) mod 28 + 1))
                      else None)\<rparr>)"
proof -
  have z: "fst (settingsFallback settings) \<noteq> Num 0 \<and> fst (snd (settingsFallback settings)) \<noteq> Num 0"
    by (cases settings) (auto simp: settingsFallback_def)
  have c: "length (groupPeriods (periodDays ls)) \<le> 1 \<and> calculateCycleStats today ls t = Inr x
      \<longrightarrow> CycleStats.avgCycleLength x = fst (settingsFallback t)" for t x
    using calculateCycleStats_avgCycleLength [of today ls t x] lengthsAndAnchor_few_groups [of ls t]
    by simp
  have p: "periodDays ls = [] \<and> calculateCycleStats today ls t = Inr x
      \<longrightarrow> CycleStats.avgPeriodLength x = fst (snd (settingsFallback t))" for t x
    using calculateCycleStats_avgPeriodLength [of today ls t x] lengthsAndAnchor_no_periodDays [of ls t]
    by simp
  have g1: "length (groupPeriods (periodDays ls)) \<le> 1
        \<and> calculateCycleStats today ls settings = Inr st
      \<longrightarrow> CycleStats.avgCycleLength st = fst (settingsFallback settings)
          \<and> CycleStats.avgCycleLength st \<noteq> Num 0"
    using c [of settings st] z by simp
  have g2: "periodDays ls = [] \<and> calculateCycleStats today ls settings = Inr st
      \<longrightarrow> CycleStats.avgPeriodLength st = fst (snd (settingsFallback settings))
          \<and> CycleStats.avgPeriodLength st \<noteq> Num 0"
    using p [of settings st] z by simp
  have c0: "length (groupPeriods (periodDays ls)) \<le> 1
        \<and> calculateCycleStats today ls (Some (s\<lparr>UserSettings.avgCycleLength := Num 0\<rparr>)) = Inr st0
      \<longrightarrow> CycleStats.avgCycleLength st0 = Num 28"
    using c [of "Some (s\<lparr>UserSettings.avgCycleLength := Num 0\<rparr>)" st0]
    by (simp add: settingsFallback_def)
  have cN: "length (groupPeriods (periodDays ls)) \<le> 1
        \<and> calculateCycleStats today ls None = Inr stN
      \<longrightarrow> CycleStats.avgCycleLength stN = Num 28"
    using c [of None stN] by (simp add: settingsFallback_def)
  have p0: "periodDays ls = []
        \<and> calculateCycleStats today ls (Some (s\<lparr>UserSettings.avgPeriodLength := Num 0\<rparr>)) = Inr st1
      \<longrightarrow> CycleStats.avgPeriodLength st1 = Num 5"
    using p [of "Some (s\<lparr>UserSettings.avgPeriodLength := Num 0\<rparr>)" st1]
    by (simp add: settingsFallback_def)
  have e: "periodDays ls = [] \<longrightarrow>
        calculateCycleStats today ls (Some (s\<lparr>lastPeriodStartManual := Some []\<rparr>))
          = Inr (lengthsOnly (fst (settingsFallback (Some s))) (fst (snd (settingsFallback (Some s)))))"
  proof
    assume n: "periodDays ls = []"
    have "lengthsAndAnchor ls (Some (s\<lparr>lastPeriodStartManual := Some []\<rparr>))
            = (fst (settingsFallback (Some s)), fst (snd (settingsFallback (Some s))), None)"
      by (simp add: lengthsAndAnchor_no_periodDays [OF n] settingsFallback_def)
    then show "calculateCycleStats today ls (Some (s\<lparr>lastPeriodStartManual := Some []\<rparr>))
          = Inr (lengthsOnly (fst (settingsFallback (Some s))) (fst (snd (settingsFallback (Some s)))))"
      by (rule calculateCycleStats_unresolved) simp
  qed
  have n: "periodDays ls = [] \<longrightarrow>
        calculateCycleStats today ls None = Inr (lengthsOnly (Num 28) (Num 5))"
  proof
    assume n: "periodDays ls = []"
    have "lengthsAndAnchor ls None = (Num 28, Num 5, None)"
      by (simp add: lengthsAndAnchor_no_periodDays [OF n] settingsFallback_def)
    then show "calculateCycleStats today ls None = Inr (lengthsOnly (Num 28) (Num 5))"
      by (rule calculateCycleStats_unresolved) simp
  qed
  have ze: "periodDays ls = [] \<longrightarrow>
        calculateCycleStats today ls (Some (settingsZero [])) = Inr (lengthsOnly (Num 28) (Num 5))"
  proof
    assume n: "periodDays ls = []"
    have "lengthsAndAnchor ls (Some (settingsZero [])) = (Num 28, Num 5, None)"
      by (simp add: lengthsAndAnchor_no_periodDays [OF n] settingsFallback_def settingsZero_def)
    then show "calculateCycleStats today ls (Some (settingsZero [])) = Inr (lengthsOnly (Num 28) (Num 5))"
      by (rule calculateCycleStats_unresolved) simp
  qed
  have d: "periodDays ls = [] \<and> parseISO a = Some anchorDay
        \<and> days_from_civil 1 1 1 \<le> anchorDay + 28 \<and> anchorDay + 28 \<le> days_from_civil 9999 12 31
      \<longrightarrow> calculateCycleStats today ls (Some (settingsZero a))
            = Inr \<lparr>CycleStats.avgCycleLength = Num 28, avgPeriodLength = Num 5,
                   lastPeriodStart = Some a, nextPeriodDate = Some (formatYMD (anchorDay + 28)),
                   ovulationDate = Some (formatYMD (anchorDay + 14)),
                   fertileWindow =
                     map formatYMD [anchorDay + 11, anchorDay + 12, anchorDay + 13,
                                    anchorDay + 14, anchorDay + 15],
                   currentDayOfCycle =
                     (if 0 < today - anchorDay + 1
                      then Some (Num ((today - anchorDay) mod 28 + 1))
                      else None)\<rparr>"
  proof
    assume h: "periodDays ls = [] \<and> parseISO a = Some anchorDay
        \<and> days_from_civil 1 1 1 \<le> anchorDay + 28 \<and> anchorDay + 28 \<le> days_from_civil 9999 12 31"
    then have ne: "a \<noteq> []"
      by (auto simp: parseISO_Nil)
    from h have l: "lengthsAndAnchor ls (Some (settingsZero a)) = (Num 28, Num 5, Some a)"
      by (simp add: lengthsAndAnchor_no_periodDays settingsFallback_def settingsZero_def ne)
    have r: "0 < today - anchorDay + 1 \<Longrightarrow>
        js_add (js_rem (Num (today - anchorDay)) (Num 28)) (Num 1) = Num ((today - anchorDay) mod 28 + 1)"
      by (simp add: js_rem_nonneg del: js_rem.simps)
    from h have "calculateCycleStats today ls (Some (settingsZero a)) =
           Inr \<lparr>CycleStats.avgCycleLength = Num 28, avgPeriodLength = Num 5,
                lastPeriodStart = Some a, nextPeriodDate = Some (formatYMD (anchorDay + 28)),
                ovulationDate = Some (formatYMD (anchorDay + 28 - 14)),
                fertileWindow =
                  map formatYMD [anchorDay + 28 - 17, anchorDay + 28 - 16, anchorDay + 28 - 15,
                                 anchorDay + 28 - 14, anchorDay + 28 - 13],
                currentDayOfCycle =
                  (if 0 < today - anchorDay + 1
                   then Some (js_add (js_rem (Num (today - anchorDay)) (Num 28)) (Num 1))
                   else None)\<rparr>"
      by (intro calculateCycleStats_returns l) simp_all
    with r show "calculateCycleStats today ls (Some (settingsZero a))
            = Inr \<lparr>CycleStats.avgCycleLength = Num 28, avgPeriodLength = Num 5,
                   lastPeriodStart = Some a, nextPeriodDate = Some (formatYMD (anchorDay + 28)),
                   ovulationDate = Some (formatYMD (anchorDay + 14)),
                   fertileWindow =
                     map formatYMD [anchorDay + 11, anchorDay + 12, anchorDay + 13,
                                    anchorDay + 14, anchorDay + 15],
                   currentDayOfCycle =
                     (if 0 < today - anchorDay + 1
                      then Some (Num ((today - anchorDay) mod 28 + 1))
                      else None)\<rparr>"
      by (simp add: add.commute del: js_rem.simps js_add.simps)
  qed
  show ?thesis
    by (intro conjI calculateCycleStats_cong_settings z [THEN conjunct1] z [THEN conjunct2]
        g1 g2 c0 cN p0 e n ze d)
       (simp_all add: settingsFallback_def)
qed

theorem settings_falsy_defaults_witness:
  "periodDays [] = [] \<and> length (groupPeriods (periodDays [])) \<le> 1
   \<and> parseISO ''2024-01-01'' = Some 739251
   \<and> days_from_civil 1 1 1 \<le> 739251 + 28 \<and> 739251 + 28 \<le> days_from_civil 9999 12 31
   \<and> calculateCycleStats 739279 [] (Some (settingsZero ''2024-01-01''))
       = Inr \<lparr>CycleStats.avgCycleLength = Num 28, avgPeriodLength = Num 5,
              lastPeriodStart = Some ''2024-01-01'', nextPeriodDate = Some ''2024-01-29'',
              ovulationDate = Some ''2024-01-15'',
              fertileWindow =
                [''2024-01-12'', ''2024-01-13'', ''2024-01-14'', ''2024-01-15'', ''2024-01-16''],
              currentDayOfCycle = Some (Num 1)\<rparr>
   \<and> calculateCycleStats 739279 [] None = Inr (lengthsOnly (Num 28) (Num 5))
   \<and> calculateCycleStats 739279 [] (Some (settingsZero [])) = Inr (lengthsOnly (Num 28) (Num 5))"
proof -
  have g: "length (groupPeriods (periodDays [])) \<le> 1"
    by (simp add: periodDays_Nil groupPeriods_def)
  have b: "days_from_civil 1 1 1 \<le> 739251 + 28 \<and> 739251 + 28 \<le> days_from_civil 9999 12 31"
    by (simp add: days_from_civil_0001_01_01 days_from_civil_9999_12_31)
  define st where "st =
    \<lparr>CycleStats.avgCycleLength = Num 28, avgPeriodLength = Num 5,
     lastPeriodStart = Some ''2024-01-01'', nextPeriodDate = Some ''2024-01-29'',
     ovulationDate = Some ''2024-01-15'',
     fertileWindow = [''2024-01-12'', ''2024-01-13'', ''2024-01-14'', ''2024-01-15'', ''2024-01-16''],
     currentDayOfCycle = Some (Num 1)\<rparr>"
  note t = settings_falsy_defaults [where ls = "[]" and a = "''2024-01-01''" and anchorDay = 739251
      and today = 739279 and s = "settingsZero ''2024-01-01''"
      and settings = "Some (settingsZero ''2024-01-01'')" and st = st and ?st0.0 = st
      and ?st1.0 = st and stN = "lengthsOnly (Num 28) (Num 5)"]
  note u = t [THEN conjunct2, THEN conjunct2, THEN conjunct2, THEN conjunct2, THEN conjunct2, THEN conjunct2, THEN conjunct2, THEN conjunct2, THEN conjunct2, THEN conjunct2, THEN conjunct2, THEN conjunct2, THEN conjunct2, THEN conjunct2]
  note n = u [THEN conjunct1, THEN mp, OF periodDays_Nil]
  note e = u [THEN conjunct2, THEN conjunct1, THEN mp, OF periodDays_Nil]
  from periodDays_Nil parseISO_2024_01_01 b
  have "periodDays [] = [] \<and> parseISO ''2024-01-01'' = Some 739251
      \<and> days_from_civil 1 1 1 \<le> 739251 + 28 \<and> 739251 + 28 \<le> days_from_civil 9999 12 31"
    by simp
  note d = u [THEN conjunct2, THEN conjunct2, THEN mp, OF this]
  from n e d periodDays_Nil g parseISO_2024_01_01 b formatYMD_window_2024_01
  show ?thesis
    by (simp add: formatYMD_2024_01_29 formatYMD_2024_01_15)
qed

section \<open>Short cycles have no follicular phase\<close>

text \<open>
  C10. With an average cycle length of at most 17 no day of the cycle from 1 on is
  classified as follicular: \<open>ovulationDay - 2\<close> is at most 1, so the day is menstrual,
  ovulatory or luteal.
\<close>

theorem getCyclePhase_short_cycle:
  assumes "1 \<le> d" and "CycleStats.avgCycleLength st = Num n" and "n \<le> 17"
  shows "getCyclePhase (Num d) st \<noteq> folicular"
  using assms by (simp add: getCyclePhase_def Let_def)

theorem getCyclePhase_short_cycle_witness:
  "(1::int) \<le> 1 \<and> CycleStats.avgCycleLength (lengthsOnly (Num 17) (Num 0)) = Num 17 \<and> (17::int) \<le> 17
     \<and> getCyclePhase (Num 1) (lengthsOnly (Num 17) (Num 0)) \<noteq> folicular"
  using getCyclePhase_short_cycle [of 1 "lengthsOnly (Num 17) (Num 0)" 17]
  by (simp add: lengthsOnly_def)

end
